theory Spec2Isabelle
  imports Main "HOL-Library.Word" "HOL-Library.Char_ord" "HOL-Library.Sublist"
begin

unbundle bit_operations_syntax

section \<open>View option construction and serialisation (src/viewopts.c)\<close>

text \<open>
  A shallow embedding of \<^verbatim>\<open>src/viewopts.c\<close> and of the declarations of
  \<^verbatim>\<open>include/lcbex/viewopts.h\<close> it uses. Conventions:
  \<^item> A \<^verbatim>\<open>char *\<close> is modelled by the bytes stored at the address; the bytes after the
    end of the list are NUL. A C string is therefore the part of the list before its first
    NUL byte.
  \<^item> \<^verbatim>\<open>size_t\<close> values are natural numbers up to \<^verbatim>\<open>SIZE_MAX\<close>, the sentinel the code
    compares with. The sums \<^verbatim>\<open>lcbex_vqstr_calc_len\<close> and \<^verbatim>\<open>lcbex_vqstr_make_uri\<close> form
    of the lengths in their arguments are reduced modulo \<open>2 ^ 64\<close>, as \<^verbatim>\<open>size_t\<close>
    arithmetic is, and an \<^verbatim>\<open>int\<close> has 32 bits.
  \<^item> \<^verbatim>\<open>malloc\<close>, \<^verbatim>\<open>calloc\<close> and \<^verbatim>\<open>realloc\<close> always return a fresh block: the
    out-of-memory branches of the source are outside this model.
  \<^item> Every function that allocates, releases or writes through an out-parameter takes the
    state it touches and returns the new one.
\<close>

subsection \<open>The C library, as far as the code uses it\<close>

definition NUL :: char where
  "NUL = CHR 0x00"

definition SIZE_MAX :: nat where
  "SIZE_MAX = 2 ^ 64 - 1"

definition INT_MAX :: nat where
  "INT_MAX = 2 ^ 31 - 1"

text \<open>
  The sum of two \<^verbatim>\<open>size_t\<close> values, and the conversion of an \<^verbatim>\<open>int\<close> to \<^verbatim>\<open>size_t\<close>.
\<close>

definition size_t_add :: "nat \<Rightarrow> nat \<Rightarrow> nat" where
  "size_t_add a b = (a + b) mod 2 ^ 64"

definition size_t_of_int :: "int \<Rightarrow> nat" where
  "size_t_of_int i = nat (i mod 2 ^ 64)"

text \<open>The byte at offset \<open>i\<close> of a buffer, and the \<open>n\<close> bytes \<^verbatim>\<open>memcpy\<close> reads from it.\<close>

definition cbyte :: "string \<Rightarrow> nat \<Rightarrow> char" where
  "cbyte s i = (if i < length s then s ! i else NUL)"

definition memcpy_bytes :: "string \<Rightarrow> nat \<Rightarrow> string" where
  "memcpy_bytes s n = take n s @ replicate (n - length s) NUL"

definition cstring :: "string \<Rightarrow> string" where
  "cstring s = takeWhile (\<lambda>c. c \<noteq> NUL) s"

definition strlen :: "string \<Rightarrow> nat" where
  "strlen s = length (cstring s)"

text \<open>\<^verbatim>\<open>strncpy\<close> into a zeroed buffer: the string, cut at \<open>n\<close> bytes, padded with NUL.\<close>

definition strncpy_bytes :: "string \<Rightarrow> nat \<Rightarrow> string" where
  "strncpy_bytes s n = memcpy_bytes (cstring s) n"

definition isdigit :: "char \<Rightarrow> bool" where
  "isdigit c = (CHR ''0'' \<le> c \<and> c \<le> CHR ''9'')"

definition tolower :: "char \<Rightarrow> char" where
  "tolower c = (if CHR ''A'' \<le> c \<and> c \<le> CHR ''Z'' then char_of (of_char c + 32 :: nat) else c)"

text \<open>
  \<^verbatim>\<open>strncmp\<close> and \<^verbatim>\<open>strncasecmp\<close>: at most \<open>n\<close> bytes are compared, the comparison stops
  at the first difference or at a NUL, the result is the difference of the two bytes as
  unsigned values.
\<close>

fun strncmp :: "string \<Rightarrow> string \<Rightarrow> nat \<Rightarrow> int" where
  "strncmp (x # xs) (y # ys) n =
     (if n = 0 then 0
      else if x \<noteq> y then int (of_char x) - int (of_char y)
      else if x = NUL then 0
      else strncmp xs ys (n - 1))"
| "strncmp [] (y # ys) n = (if n = 0 then 0 else - int (of_char y))"
| "strncmp (x # xs) [] n = (if n = 0 then 0 else int (of_char x))"
| "strncmp [] [] n = 0"

fun strncasecmp :: "string \<Rightarrow> string \<Rightarrow> nat \<Rightarrow> int" where
  "strncasecmp (x # xs) (y # ys) n =
     (if n = 0 then 0
      else if tolower x \<noteq> tolower y then int (of_char (tolower x)) - int (of_char (tolower y))
      else if x = NUL then 0
      else strncasecmp xs ys (n - 1))"
| "strncasecmp [] (y # ys) n = (if n = 0 then 0 else - int (of_char (tolower y)))"
| "strncasecmp (x # xs) [] n = (if n = 0 then 0 else int (of_char (tolower x)))"
| "strncasecmp [] [] n = 0"

text \<open>The conversion \<^verbatim>\<open>%d\<close> of \<^verbatim>\<open>printf\<close>.\<close>

definition digit_char :: "nat \<Rightarrow> char" where
  "digit_char d = ''0123456789'' ! d"

function dec_digits :: "nat \<Rightarrow> string" where
  "dec_digits n = (if n < 10 then [digit_char n] else dec_digits (n div 10) @ [digit_char (n mod 10)])"
  by pat_completeness auto
termination
  by (relation "measure (\<lambda>n. n)") auto

declare dec_digits.simps [simp del]

definition printf_d :: "int \<Rightarrow> string" where
  "printf_d i = (if i < 0 then CHR ''-'' # dec_digits (nat (- i)) else dec_digits (nat i))"

text \<open>The conversion \<^verbatim>\<open>%02X\<close> of an \<^verbatim>\<open>unsigned char\<close>.\<close>

definition hex_char :: "nat \<Rightarrow> char" where
  "hex_char d = ''0123456789ABCDEF'' ! d"

definition printf_02X :: "char \<Rightarrow> string" where
  "printf_02X c = [hex_char (of_char c div 16), hex_char (of_char c mod 16)]"

text \<open>
  The conversion \<^verbatim>\<open>%.*s\<close>: the string, cut at the precision; a negative precision counts
  as none. The source passes \<^verbatim>\<open>(int)n\<close> for a \<^verbatim>\<open>size_t\<close>.
\<close>

definition int_of_size_t :: "nat \<Rightarrow> int" where
  "int_of_size_t n = sint (word_of_nat n :: 32 word)"

definition printf_prec_s :: "int \<Rightarrow> string \<Rightarrow> string" where
  "printf_prec_s p s = (if p < 0 then cstring s else take (nat p) (cstring s))"

text \<open>
  \<^verbatim>\<open>snprintf\<close> into a buffer of \<open>n\<close> bytes, for a call whose complete output is
  \<open>out\<close>. The result is the length of the complete output, or a negative number when
  that length is not an \<^verbatim>\<open>int\<close>. With \<open>n\<close> zero nothing is stored; otherwise the
  first \<open>n - 1\<close> bytes of the output and a NUL are.
\<close>

definition snprintf_ret :: "string \<Rightarrow> int" where
  "snprintf_ret out = (if length out \<le> INT_MAX then int (length out) else - 1)"

definition snprintf_bytes :: "nat \<Rightarrow> string \<Rightarrow> string" where
  "snprintf_bytes n out = (if n = 0 then [] else take (n - 1) out @ [NUL])"

subsection \<open>Memory\<close>

text \<open>
  The heap is the list of the addresses of its live blocks. \<^verbatim>\<open>malloc\<close> returns an address
  that no live block has; \<^verbatim>\<open>free\<close> of an address that is not live, and a write outside
  the block it is meant for, are counted in \<open>faults\<close>. A block is written once, when it
  is allocated, so a pointer to it carries its
  bytes.
\<close>

record memory =
  live :: "nat list"
  faults :: nat

datatype cptr =
    Null
  | Static string
  | Caller string
  | Heap nat string

definition mem_empty :: memory where
  "mem_empty = \<lparr>live = [], faults = 0\<rparr>"

definition fresh :: "nat list \<Rightarrow> nat" where
  "fresh as = Suc (fold max as 0)"

definition malloc :: "memory \<Rightarrow> nat \<times> memory" where
  "malloc m = (let a = fresh (live m) in (a, m\<lparr>live := a # live m\<rparr>))"

definition free_addr :: "nat \<Rightarrow> memory \<Rightarrow> memory" where
  "free_addr a m =
     (if a \<in> set (live m) then m\<lparr>live := removeAll a (live m)\<rparr>
      else m\<lparr>faults := Suc (faults m)\<rparr>)"

fun free :: "cptr \<Rightarrow> memory \<Rightarrow> memory" where
  "free Null m = m"
| "free (Heap a bs) m = free_addr a m"
| "free (Static s) m = m\<lparr>faults := Suc (faults m)\<rparr>"
| "free (Caller s) m = m\<lparr>faults := Suc (faults m)\<rparr>"

text \<open>The bytes at a pointer; nothing is stored at the null pointer.\<close>

fun bytes_at :: "cptr \<Rightarrow> string" where
  "bytes_at Null = []"
| "bytes_at (Static s) = s"
| "bytes_at (Caller s) = s"
| "bytes_at (Heap a bs) = bs"

subsection \<open>Declarations of viewopts.h\<close>

datatype lcb_error_t = LCB_SUCCESS | LCB_EINVAL | LCB_CLIENT_ENOMEM

definition LCBEX_VOPT_F_PCTENCODE :: int where
  "LCBEX_VOPT_F_PCTENCODE = push_bit 0 1"

definition LCBEX_VOPT_F_OPTVAL_NUMERIC :: int where
  "LCBEX_VOPT_F_OPTVAL_NUMERIC = push_bit 1 1"

definition LCBEX_VOPT_F_PASSTHROUGH :: int where
  "LCBEX_VOPT_F_PASSTHROUGH = push_bit 2 1"

definition LCBEX_VOPT_F_OPTVAL_CONSTANT :: int where
  "LCBEX_VOPT_F_OPTVAL_CONSTANT = push_bit 3 1"

definition LCBEX_VOPT_F_OPTNAME_CONSTANT :: int where
  "LCBEX_VOPT_F_OPTNAME_CONSTANT = push_bit 4 1"

definition LCBEX_VOPT_F_OPTNAME_NUMERIC :: int where
  "LCBEX_VOPT_F_OPTNAME_NUMERIC = push_bit 5 1"

record lcbex_vopt_st =
  optname :: cptr
  optval :: cptr
  noptname :: nat
  noptval :: nat
  flags :: int

text \<open>The record after \<^verbatim>\<open>memset(optobj, 0, sizeof(*optobj))\<close>.\<close>

definition vopt_zero :: lcbex_vopt_st where
  "vopt_zero = \<lparr>optname = Null, optval = Null, noptname = 0, noptval = 0, flags = 0\<rparr>"

text \<open>
  What a \<^verbatim>\<open>const void *\<close> argument points to. The flags of the call decide whether the
  code reads it as a string or as an \<^verbatim>\<open>int\<close>; the model carries both readings. For a
  pointer to an \<^verbatim>\<open>int\<close> the string reading is the four bytes of the \<^verbatim>\<open>int\<close>, lowest
  first, and the bytes \<open>after\<close> that follow it in memory.
\<close>

record cvoid =
  str_view :: string
  int_view :: "32 word"

definition str_arg :: "string \<Rightarrow> cvoid" where
  "str_arg s = \<lparr>str_view = s, int_view = 0\<rparr>"

definition int_bytes :: "32 word \<Rightarrow> string" where
  "int_bytes w = map (\<lambda>k. char_of (unat (drop_bit (8 * k) w))) [0, 1, 2, 3]"

definition int_arg :: "int \<Rightarrow> string \<Rightarrow> cvoid" where
  "int_arg i after = \<lparr>str_view = int_bytes (word_of_int i) @ after, int_view = word_of_int i\<rparr>"

datatype view_param_handler =
  bool_handler | num_handler | string_handler | stale_handler | onerror_handler

record view_param =
  itype :: int
  param :: string
  handler :: view_param_handler

text \<open>
  The table the macro \<^verbatim>\<open>LCBEX_XVOPT\<close> expands to; \<^verbatim>\<open>jval\<close> and \<^verbatim>\<open>jarry\<close> are macros
  for the string handler, the numbers are those of the header's enumeration.
\<close>

definition recognized_view_params :: "view_param list" where
  "recognized_view_params =
    [\<lparr>itype = 1, param = ''descending'', handler = bool_handler\<rparr>,
     \<lparr>itype = 2, param = ''endkey'', handler = string_handler\<rparr>,
     \<lparr>itype = 3, param = ''endkey_docid'', handler = string_handler\<rparr>,
     \<lparr>itype = 4, param = ''full_set'', handler = bool_handler\<rparr>,
     \<lparr>itype = 5, param = ''group'', handler = bool_handler\<rparr>,
     \<lparr>itype = 6, param = ''group_level'', handler = num_handler\<rparr>,
     \<lparr>itype = 7, param = ''inclusive_end'', handler = bool_handler\<rparr>,
     \<lparr>itype = 8, param = ''keys'', handler = string_handler\<rparr>,
     \<lparr>itype = 9, param = ''key'', handler = string_handler\<rparr>,
     \<lparr>itype = 10, param = ''on_error'', handler = onerror_handler\<rparr>,
     \<lparr>itype = 11, param = ''reduce'', handler = bool_handler\<rparr>,
     \<lparr>itype = 12, param = ''stale'', handler = stale_handler\<rparr>,
     \<lparr>itype = 13, param = ''skip'', handler = num_handler\<rparr>,
     \<lparr>itype = 14, param = ''limit'', handler = num_handler\<rparr>,
     \<lparr>itype = 15, param = ''startkey'', handler = string_handler\<rparr>,
     \<lparr>itype = 16, param = ''startkey_docid'', handler = string_handler\<rparr>,
     \<lparr>itype = 17, param = ''debug'', handler = bool_handler\<rparr>]"

subsection \<open>Helpers of viewopts.c\<close>

text \<open>
  A handler returns its status, the option record, the \<^verbatim>\<open>*error\<close> slot and the heap.
  The \<^verbatim>\<open>view_param\<close> argument of the handlers is unused by all of them and left out.
\<close>

type_synonym handler_result = "lcb_error_t \<times> lcbex_vopt_st \<times> string option \<times> memory"

definition quoted :: "string \<Rightarrow> string" where
  "quoted s = CHR 0x27 # s @ [CHR 0x27]"

definition my_strndup :: "string \<Rightarrow> nat \<Rightarrow> memory \<Rightarrow> cptr \<times> memory" where
  "my_strndup s n m = (let (a, m') = malloc m in (Heap a (strncpy_bytes s n), m'))"

definition set_user_string ::
  "lcbex_vopt_st \<Rightarrow> cvoid \<Rightarrow> nat \<Rightarrow> int \<Rightarrow> memory \<Rightarrow> lcbex_vopt_st \<times> memory" where
  "set_user_string optobj value nvalue fl m =
     (let optobj = optobj\<lparr>noptval := nvalue\<rparr> in
      if fl AND LCBEX_VOPT_F_OPTVAL_CONSTANT \<noteq> 0 then
        (optobj\<lparr>optval := Caller (str_view value),
                flags := flags optobj OR LCBEX_VOPT_F_OPTVAL_CONSTANT\<rparr>, m)
      else
        (let (p, m') = my_strndup (str_view value) nvalue m in
         (optobj\<lparr>optval := p,
                 flags := flags optobj AND NOT LCBEX_VOPT_F_OPTVAL_CONSTANT\<rparr>, m')))"

subsection \<open>Handlers\<close>

definition bool_param_handler ::
  "lcbex_vopt_st \<Rightarrow> cvoid \<Rightarrow> nat \<Rightarrow> int \<Rightarrow> string option \<Rightarrow> memory \<Rightarrow> handler_result" where
  "bool_param_handler optobj value nvalue fl error m =
     (let error = None;
          bval =
            (if fl AND LCBEX_VOPT_F_OPTVAL_NUMERIC \<noteq> 0 then Some (sint (int_view value))
             else if strncasecmp ''true'' (str_view value) nvalue = 0 then Some 1
             else if strncasecmp ''false'' (str_view value) nvalue = 0 then Some 0
             else None)
      in case bval of
           None \<Rightarrow>
             (LCB_EINVAL, optobj,
              Some (''String must be either '' @ quoted ''true'' @ '' or '' @ quoted ''false''), m)
         | Some b \<Rightarrow>
             (let optobj = optobj\<lparr>optval := Static (if b \<noteq> 0 then ''true'' else ''false'')\<rparr>;
                  optobj = optobj\<lparr>noptval := strlen (bytes_at (optval optobj))\<rparr>;
                  optobj = optobj\<lparr>flags := flags optobj OR LCBEX_VOPT_F_OPTVAL_CONSTANT\<rparr>
              in (LCB_SUCCESS, optobj, error, m)))"

text \<open>The loop \<^verbatim>\<open>for (ii = 1; ii < nvalue; ii++)\<close> of the numeric handler.\<close>

function digits_from :: "string \<Rightarrow> nat \<Rightarrow> nat \<Rightarrow> bool" where
  "digits_from istr ii nvalue =
     (if ii < nvalue then
        (if \<not> isdigit (cbyte istr ii) then False else digits_from istr (Suc ii) nvalue)
      else True)"
  by pat_completeness auto
termination
  by (relation "measure (\<lambda>(istr, ii, nvalue). nvalue - ii)") auto

declare digits_from.simps [simp del]

definition num_param_handler ::
  "lcbex_vopt_st \<Rightarrow> cvoid \<Rightarrow> nat \<Rightarrow> int \<Rightarrow> string option \<Rightarrow> memory \<Rightarrow> handler_result" where
  "num_param_handler optobj value nvalue fl error m =
     (if fl AND LCBEX_VOPT_F_OPTVAL_NUMERIC \<noteq> 0 then
        (let (numbuf, m') = malloc m;
             out = printf_d (sint (int_view value));
             optobj = optobj\<lparr>noptval := length out\<rparr>;
             optobj = optobj\<lparr>optval := Heap numbuf (take 127 out)\<rparr>;
             optobj = optobj\<lparr>flags := flags optobj AND NOT LCBEX_VOPT_F_OPTVAL_CONSTANT\<rparr>
         in (LCB_SUCCESS, optobj, error, m'))
      else
        (let istr = str_view value;
             nvalue = (if nvalue = SIZE_MAX then strlen istr else nvalue)
         in if nvalue = 0 then
              (LCB_EINVAL, optobj, Some ''Received an empty string'', m)
            else if \<not> isdigit (cbyte istr 0) \<and> cbyte istr 0 \<noteq> CHR ''-'' then
              (LCB_EINVAL, optobj, Some ''String must consist entirely of a signed number'', m)
            else if \<not> digits_from istr 1 nvalue then
              (LCB_EINVAL, optobj, Some ''String must consist entirely of digits'', m)
            else
              (let (optobj, m') = set_user_string optobj value nvalue fl m
               in (LCB_SUCCESS, optobj, error, m'))))"

definition needs_pct_encoding :: "char \<Rightarrow> bool" where
  "needs_pct_encoding c =
     (if CHR ''a'' \<le> c \<and> c \<le> CHR ''z'' then False
      else if CHR ''A'' \<le> c \<and> c \<le> CHR ''Z'' then False
      else if CHR ''0'' \<le> c \<and> c \<le> CHR ''9'' then False
      else if c = CHR ''-'' \<or> c = CHR ''_'' \<or> c = CHR ''.'' then False
      else True)"

text \<open>
  \<^verbatim>\<open>do_pct_encode\<close>: \<open>dest\<close> is \<open>None\<close> for a null destination, otherwise the bytes
  written so far, which are the \<open>d_len\<close> bytes before the position of the next write.
\<close>

function do_pct_encode_loop ::
  "string option \<Rightarrow> string \<Rightarrow> nat \<Rightarrow> nat \<Rightarrow> nat \<Rightarrow> string option \<times> nat" where
  "do_pct_encode_loop dest src nsrc ii d_len =
     (if ii < nsrc then
        (if needs_pct_encoding (cbyte src ii) then
           do_pct_encode_loop
             (case dest of None \<Rightarrow> None
              | Some d \<Rightarrow> Some (take d_len d @ CHR ''%'' # printf_02X (cbyte src ii)))
             src nsrc (Suc ii) (d_len + 3)
         else
           do_pct_encode_loop
             (case dest of None \<Rightarrow> None | Some d \<Rightarrow> Some (take d_len d @ [cbyte src ii]))
             src nsrc (Suc ii) (Suc d_len))
      else (dest, d_len))"
  by pat_completeness auto
termination
  by (relation "measure (\<lambda>(dest, src, nsrc, ii, d_len). nsrc - ii)") auto

declare do_pct_encode_loop.simps [simp del]

definition do_pct_encode :: "string option \<Rightarrow> string \<Rightarrow> nat \<Rightarrow> string option \<times> nat" where
  "do_pct_encode dest src nsrc = do_pct_encode_loop dest src nsrc 0 0"

text \<open>The loop of the string handler that computes \<^verbatim>\<open>needed_size\<close>.\<close>

function needed_size_loop :: "string \<Rightarrow> nat \<Rightarrow> nat \<Rightarrow> nat \<Rightarrow> nat" where
  "needed_size_loop str nvalue ii needed_size =
     (if ii < nvalue then
        (if needs_pct_encoding (cbyte str ii)
         then needed_size_loop str nvalue (Suc ii) (needed_size + 3)
         else needed_size_loop str nvalue (Suc ii) (Suc needed_size))
      else needed_size)"
  by pat_completeness auto
termination
  by (relation "measure (\<lambda>(str, nvalue, ii, needed_size). nvalue - ii)") auto

declare needed_size_loop.simps [simp del]

definition string_param_handler ::
  "lcbex_vopt_st \<Rightarrow> cvoid \<Rightarrow> nat \<Rightarrow> int \<Rightarrow> string option \<Rightarrow> memory \<Rightarrow> handler_result" where
  "string_param_handler optobj value nvalue fl error m =
     (if fl AND LCBEX_VOPT_F_OPTVAL_NUMERIC \<noteq> 0 then
        (LCB_EINVAL, optobj, Some ''Option requires a string value'', m)
      else if fl AND LCBEX_VOPT_F_PCTENCODE = 0 then
        (let (optobj, m') = set_user_string optobj value nvalue fl m
         in (LCB_SUCCESS, optobj, error, m'))
      else
        (let str = str_view value;
             needed_size = needed_size_loop str nvalue 0 0
         in if needed_size = nvalue then
              (let (optobj, m') = set_user_string optobj value nvalue fl m
               in (LCB_SUCCESS, optobj, error, m'))
            else
              (let (a, m') = malloc m;
                   (dest, d_len) = do_pct_encode (Some []) str nvalue;
                   optobj = optobj\<lparr>optval := Heap a (case dest of None \<Rightarrow> [] | Some d \<Rightarrow> d)\<rparr>;
                   optobj = optobj\<lparr>noptval := d_len\<rparr>
               in (LCB_SUCCESS, optobj, error, m'))))"

definition stale_param_handler ::
  "lcbex_vopt_st \<Rightarrow> cvoid \<Rightarrow> nat \<Rightarrow> int \<Rightarrow> string option \<Rightarrow> memory \<Rightarrow> handler_result" where
  "stale_param_handler optobj value nvalue fl error m =
     (let optobj = optobj\<lparr>flags := flags optobj OR LCBEX_VOPT_F_OPTVAL_CONSTANT\<rparr>
      in case bool_param_handler optobj value nvalue fl error m of
           (rc, optobj, error, m) \<Rightarrow>
             if rc = LCB_SUCCESS then
               (if cbyte (bytes_at (optval optobj)) 0 = CHR ''t''
                then (LCB_SUCCESS, optobj\<lparr>optval := Static ''ok'', noptval := length ''ok''\<rparr>,
                      error, m)
                else (LCB_SUCCESS, optobj, error, m))
             else if strncasecmp ''update_after'' (str_view value) nvalue = 0 then
               (LCB_SUCCESS,
                optobj\<lparr>optval := Static ''update_after'', noptval := length ''update_after''\<rparr>,
                error, m)
             else if strncasecmp ''ok'' (str_view value) nvalue = 0 then
               (LCB_SUCCESS, optobj\<lparr>optval := Static ''ok'', noptval := length ''ok''\<rparr>, error, m)
             else
               (LCB_EINVAL, optobj,
                Some (''stale must be a boolean or the string '' @ quoted ''update_after''), m))"

definition onerror_param_handler ::
  "lcbex_vopt_st \<Rightarrow> cvoid \<Rightarrow> nat \<Rightarrow> int \<Rightarrow> string option \<Rightarrow> memory \<Rightarrow> handler_result" where
  "onerror_param_handler optobj value nvalue fl error m =
     (let error = Some (''on_error must be one of '' @ quoted ''continue'' @ '' or '' @ quoted ''stop'');
          optobj = optobj\<lparr>flags := flags optobj OR LCBEX_VOPT_F_OPTVAL_CONSTANT\<rparr>
      in if strncasecmp ''stop'' (str_view value) nvalue = 0 then
           (LCB_SUCCESS, optobj\<lparr>optval := Static ''stop'', noptval := length ''stop''\<rparr>, error, m)
         else if strncasecmp ''continue'' (str_view value) nvalue = - 0 then
           (LCB_SUCCESS, optobj\<lparr>optval := Static ''continue'', noptval := length ''continue''\<rparr>,
            error, m)
         else (LCB_EINVAL, optobj, error, m))"

fun call_handler ::
  "view_param_handler \<Rightarrow> lcbex_vopt_st \<Rightarrow> cvoid \<Rightarrow> nat \<Rightarrow> int \<Rightarrow> string option \<Rightarrow> memory
     \<Rightarrow> handler_result" where
  "call_handler bool_handler = bool_param_handler"
| "call_handler num_handler = num_param_handler"
| "call_handler string_handler = string_param_handler"
| "call_handler stale_handler = stale_param_handler"
| "call_handler onerror_handler = onerror_param_handler"

subsection \<open>Assignment and cleanup\<close>

fun find_view_param_from :: "view_param list \<Rightarrow> cvoid \<Rightarrow> nat \<Rightarrow> int \<Rightarrow> view_param option" where
  "find_view_param_from [] option noption fl = None"
| "find_view_param_from (ret # rest) option noption fl =
     (if fl AND LCBEX_VOPT_F_OPTNAME_NUMERIC \<noteq> 0 then
        (if sint (int_view option) = itype ret then Some ret
         else find_view_param_from rest option noption fl)
      else
        (if strncmp (str_view option) (param ret) noption = 0 then Some ret
         else find_view_param_from rest option noption fl))"

definition find_view_param :: "cvoid \<Rightarrow> nat \<Rightarrow> int \<Rightarrow> view_param option" where
  "find_view_param option noption fl = find_view_param_from recognized_view_params option noption fl"

text \<open>
  \<^verbatim>\<open>lcbex_vopt_assign\<close>. The first argument is the record as the caller passes it; the
  \<^verbatim>\<open>memset\<close> at entry replaces it.
\<close>

definition lcbex_vopt_assign ::
  "lcbex_vopt_st \<Rightarrow> cvoid \<Rightarrow> nat \<Rightarrow> cvoid \<Rightarrow> nat \<Rightarrow> int \<Rightarrow> string option \<Rightarrow> memory
     \<Rightarrow> handler_result" where
  "lcbex_vopt_assign optobj0 option noption value nvalue fl error_string m =
     (let optobj = vopt_zero;
          nvalue = (if nvalue = SIZE_MAX then strlen (str_view value) else nvalue);
          noption = (if noption = SIZE_MAX then strlen (str_view option) else noption)
      in if fl AND LCBEX_VOPT_F_OPTVAL_NUMERIC = 0 \<and> nvalue = 0 then
           (LCB_EINVAL, optobj, Some ''Missing value length'', m)
         else if fl AND LCBEX_VOPT_F_OPTNAME_NUMERIC = 0 \<and> noption = 0 then
           (LCB_EINVAL, optobj, Some ''Missing option name length'', m)
         else if fl AND LCBEX_VOPT_F_PASSTHROUGH \<noteq> 0 then
           (if fl AND LCBEX_VOPT_F_OPTNAME_NUMERIC \<noteq> 0 then
              (LCB_EINVAL, optobj,
               Some (''Can'' @ [CHR 0x27] @ ''t use passthrough with option constants''), m)
            else
              (let (p, m1) = my_strndup (str_view option) noption m;
                   optobj = optobj\<lparr>optname := p\<rparr>;
                   optobj = optobj\<lparr>noptname := noption\<rparr>
               in if fl AND LCBEX_VOPT_F_OPTVAL_NUMERIC \<noteq> 0
                  then num_param_handler optobj value nvalue fl error_string m1
                  else string_param_handler optobj value nvalue fl error_string m1))
         else
           (let optobj = optobj\<lparr>flags := fl\<rparr>
            in case find_view_param option noption fl of
                 None \<Rightarrow> (LCB_EINVAL, optobj, Some ''Unrecognized option'', m)
               | Some vparam \<Rightarrow>
                   (let (optobj, m1) =
                      (if fl AND LCBEX_VOPT_F_OPTNAME_NUMERIC \<noteq> 0 then
                         (optobj\<lparr>optname := Static (param vparam),
                                 noptname := strlen (param vparam),
                                 flags := flags optobj OR LCBEX_VOPT_F_OPTNAME_CONSTANT\<rparr>, m)
                       else
                         (let optobj = optobj\<lparr>noptname := noption\<rparr>
                          in if fl AND LCBEX_VOPT_F_OPTNAME_CONSTANT \<noteq> 0 then
                               (optobj\<lparr>optname := Caller (str_view option)\<rparr>, m)
                             else
                               (let (p, m1) = my_strndup (str_view option) noption m
                                in (optobj\<lparr>optname := p\<rparr>, m1))))
                    in call_handler (handler vparam) optobj value nvalue fl error_string m1)))"

definition lcbex_vopt_cleanup :: "lcbex_vopt_st \<Rightarrow> memory \<Rightarrow> lcbex_vopt_st \<times> memory" where
  "lcbex_vopt_cleanup optobj m =
     (let m1 = (if optname optobj \<noteq> Null
                then (if flags optobj AND LCBEX_VOPT_F_OPTNAME_CONSTANT = 0
                      then free (optname optobj) m else m)
                else m);
          m2 = (if optval optobj \<noteq> Null
                then (if flags optobj AND LCBEX_VOPT_F_OPTVAL_CONSTANT = 0
                      then free (optval optobj) m1 else m1)
                else m1)
      in (vopt_zero, m2))"

text \<open>
  An array of records (or of pointers to records) and its count are a list. Both branches
  of \<^verbatim>\<open>lcbex_vopt_cleanup_list\<close> clean the records in order.
\<close>

fun lcbex_vopt_cleanup_list ::
  "lcbex_vopt_st list \<Rightarrow> bool \<Rightarrow> memory \<Rightarrow> lcbex_vopt_st list \<times> memory" where
  "lcbex_vopt_cleanup_list [] is_continguous m = ([], m)"
| "lcbex_vopt_cleanup_list (optobj # rest) is_continguous m =
     (let (optobj', m1) = lcbex_vopt_cleanup optobj m;
          (rest', m2) = lcbex_vopt_cleanup_list rest is_continguous m1
      in (optobj' # rest', m2))"

subsection \<open>The query string\<close>

text \<open>
  \<^verbatim>\<open>lcbex_vqstr_calc_len\<close>: the loop adds to \<^verbatim>\<open>ret\<close> in three steps, each a
  \<^verbatim>\<open>size_t\<close> addition.
\<close>

fun calc_len_loop :: "lcbex_vopt_st list \<Rightarrow> nat \<Rightarrow> nat" where
  "calc_len_loop [] ret = ret"
| "calc_len_loop (curopt # rest) ret =
     (let ret = size_t_add ret (noptname curopt);
          ret = size_t_add ret (noptval curopt);
          ret = size_t_add ret 2
      in calc_len_loop rest ret)"

definition lcbex_vqstr_calc_len :: "lcbex_vopt_st list \<Rightarrow> nat" where
  "lcbex_vqstr_calc_len options = size_t_add (calc_len_loop options 1) 1"

text \<open>
  The loop of \<^verbatim>\<open>lcbex_vqstr_write\<close>: \<open>buf\<close> holds the bytes written from the start of
  the buffer, \<open>bufp\<close> is the offset of the write pointer; \<open>write_option\<close> is the body of
  the loop.
\<close>

definition write_option :: "lcbex_vopt_st \<Rightarrow> string \<Rightarrow> nat \<Rightarrow> string \<times> nat" where
  "write_option curopt buf bufp =
     (let buf = take bufp buf @ memcpy_bytes (bytes_at (optname curopt)) (noptname curopt);
          bufp = bufp + noptname curopt;
          buf = take bufp buf @ ''='';
          bufp = bufp + 1;
          buf = take bufp buf @ memcpy_bytes (bytes_at (optval curopt)) (noptval curopt);
          bufp = bufp + noptval curopt;
          buf = take bufp buf @ ''&'';
          bufp = bufp + 1
      in (buf, bufp))"

fun write_loop :: "lcbex_vopt_st list \<Rightarrow> string \<Rightarrow> nat \<Rightarrow> string \<times> nat" where
  "write_loop [] buf bufp = (buf, bufp)"
| "write_loop (curopt # rest) buf bufp =
     (case write_option curopt buf bufp of (buf, bufp) \<Rightarrow> write_loop rest buf bufp)"

text \<open>
  \<^verbatim>\<open>lcbex_vqstr_write\<close> returns the bytes of the buffer before the final NUL it writes,
  and the offset of that NUL, the difference \<^verbatim>\<open>bufp - buf\<close>, as a \<^verbatim>\<open>size_t\<close>. The
  function is not given the size of the buffer: it writes whatever the lengths in the
  records ask for, so the positions in the buffer are natural numbers.
\<close>

definition lcbex_vqstr_write :: "lcbex_vopt_st list \<Rightarrow> string \<times> nat" where
  "lcbex_vqstr_write options =
     (let (buf, bufp) = write_loop options ''?'' 1;
          bufp = bufp - 1
      in (take bufp buf, size_t_of_int (int bufp)))"

definition make_uri_path :: "string \<Rightarrow> nat \<Rightarrow> string \<Rightarrow> nat \<Rightarrow> string" where
  "make_uri_path design ndesign view nview =
     ''_design/'' @ printf_prec_s (int_of_size_t ndesign) design @
     ''/_view/'' @ printf_prec_s (int_of_size_t nview) view"

text \<open>
  \<^verbatim>\<open>lcbex_vqstr_make_uri\<close> returns the block it allocates; the model returns with it the
  size \<^verbatim>\<open>needed_len\<close> the block was allocated with. \<open>path\<close> is the complete output of
  the format of the two \<^verbatim>\<open>snprintf\<close> calls, \<open>path_len\<close> the result of the first call
  stored in a \<^verbatim>\<open>size_t\<close>, \<open>buf\<close> what the second call stores in the block. The query
  string and its terminator are then written from the offset \<open>path_len\<close> on. When these
  writes stay inside the \<open>needed_len\<close> bytes of the block, the block holds the path and
  the query string. When they do not (the sum for \<open>needed_len\<close> wrapped around, or the
  first \<^verbatim>\<open>snprintf\<close> failed, so that \<open>path_len\<close> is \<^verbatim>\<open>SIZE_MAX\<close>), the source writes
  outside the block: the model counts that in \<open>faults\<close> and gives no bytes.
\<close>

definition lcbex_vqstr_make_uri ::
  "string \<Rightarrow> nat \<Rightarrow> string \<Rightarrow> nat \<Rightarrow> lcbex_vopt_st list \<Rightarrow> memory \<Rightarrow> (cptr \<times> nat) \<times> memory" where
  "lcbex_vqstr_make_uri design ndesign view nview options m =
     (let ndesign = (if ndesign = SIZE_MAX then strlen design else ndesign);
          nview = (if nview = SIZE_MAX then strlen view else nview);
          path = make_uri_path design ndesign view nview;
          path_len = size_t_of_int (snprintf_ret path);
          needed_len = lcbex_vqstr_calc_len options;
          needed_len = size_t_add needed_len (size_t_add path_len 1);
          (a, m') = malloc m;
          buf = snprintf_bytes (size_t_add path_len 1) path;
          (query, n) = lcbex_vqstr_write options
      in if path_len + length query + 1 \<le> needed_len
         then ((Heap a (take path_len buf @ query), needed_len), m')
         else ((Heap a [], needed_len), m'\<lparr>faults := Suc (faults m')\<rparr>))"

subsection \<open>Bulk creation\<close>

definition realloc :: "nat \<Rightarrow> memory \<Rightarrow> nat \<times> memory" where
  "realloc a m = malloc (free_addr a m)"

text \<open>
  The loop of \<^verbatim>\<open>lcbex_vopt_createv\<close> over the variable arguments before the terminating
  null pointer. \<open>arr\<close> is the address of the array, \<open>opts\<close> its first \<^verbatim>\<open>*noptions\<close>
  records; \<open>createv_grow\<close> is the reallocation at the head of the loop body.
\<close>

definition createv_grow :: "nat \<Rightarrow> nat \<Rightarrow> nat \<Rightarrow> memory \<Rightarrow> nat \<times> nat \<times> memory" where
  "createv_grow noptions n_alloc arr m =
     (if noptions + 1 > n_alloc
      then (let (a, m') = realloc arr m in (n_alloc * 2, a, m'))
      else (n_alloc, arr, m))"

fun createv_loop ::
  "string list \<Rightarrow> nat \<Rightarrow> nat \<Rightarrow> lcbex_vopt_st list \<Rightarrow> string option \<Rightarrow> memory
     \<Rightarrow> lcb_error_t \<times> nat \<times> lcbex_vopt_st list \<times> string option \<times> memory" where
  "createv_loop [] n_alloc arr opts errstr m = (LCB_SUCCESS, arr, opts, errstr, m)"
| "createv_loop [strp] n_alloc arr opts errstr m =
     (case createv_grow (length opts) n_alloc arr m of
        (n_alloc, arr, m) \<Rightarrow> (LCB_EINVAL, arr, opts, Some ''Got odd number of arguments'', m))"
| "createv_loop (strp # value # rest) n_alloc arr opts errstr m =
     (case createv_grow (length opts) n_alloc arr m of
        (n_alloc, arr, m) \<Rightarrow>
          (case lcbex_vopt_assign vopt_zero (str_arg strp) SIZE_MAX (str_arg value) SIZE_MAX 0
                  errstr m of
             (err, optobj, errstr, m) \<Rightarrow>
               if err \<noteq> LCB_SUCCESS then (err, arr, opts @ [optobj], errstr, m)
               else createv_loop rest n_alloc arr (opts @ [optobj]) errstr m))"

text \<open>
  \<^verbatim>\<open>lcbex_vopt_createv\<close> returns its status, \<^verbatim>\<open>*optarray\<close> (\<open>None\<close> for the null
  pointer, otherwise the address of the array and its records), \<^verbatim>\<open>*noptions\<close>,
  \<^verbatim>\<open>*errstr\<close> and the heap.
\<close>

definition lcbex_vopt_createv ::
  "string list \<Rightarrow> memory
     \<Rightarrow> lcb_error_t \<times> (nat \<times> lcbex_vopt_st list) option \<times> nat \<times> string option \<times> memory" where
  "lcbex_vopt_createv args m =
     (let (arr, m) = malloc m;
          errstr = Some [];
          (err, arr, opts, errstr, m) = createv_loop args 8 arr [] errstr m;
          noptions = length opts;
          (err, errstr) =
            (if noptions = 0 then (LCB_EINVAL, Some ''Got no arguments'') else (err, errstr))
      in if err \<noteq> LCB_SUCCESS then
           (let (opts', m) = lcbex_vopt_cleanup_list opts True m;
                m = free_addr arr m
            in (err, None, noptions, errstr, m))
         else (err, Some (arr, opts), noptions, errstr, m))"

subsection \<open>Notions used to state the properties\<close>

text \<open>
  The length the code works with after \<^verbatim>\<open>if (n == SIZE_MAX) n = strlen(s)\<close>, which
  \<^verbatim>\<open>lcbex_vopt_assign\<close>, \<^verbatim>\<open>num_param_handler\<close> and \<^verbatim>\<open>lcbex_vqstr_make_uri\<close> apply to
  their length arguments.
\<close>

definition effective_len :: "nat \<Rightarrow> string \<Rightarrow> nat" where
  "effective_len n s = (if n = SIZE_MAX then strlen s else n)"

text \<open>
  The record and the heap when \<^verbatim>\<open>lcbex_vopt_assign\<close> has stored the name of a matched
  entry and is about to call its handler (the statements between the lookup and the call).
\<close>

definition named_record ::
  "view_param \<Rightarrow> cvoid \<Rightarrow> nat \<Rightarrow> int \<Rightarrow> memory \<Rightarrow> lcbex_vopt_st \<times> memory" where
  "named_record vparam option noption fl m =
     (if fl AND LCBEX_VOPT_F_OPTNAME_NUMERIC \<noteq> 0 then
        (vopt_zero\<lparr>optname := Static (param vparam), noptname := strlen (param vparam),
           flags := fl OR LCBEX_VOPT_F_OPTNAME_CONSTANT\<rparr>, m)
      else if fl AND LCBEX_VOPT_F_OPTNAME_CONSTANT \<noteq> 0 then
        (vopt_zero\<lparr>optname := Caller (str_view option), noptname := noption, flags := fl\<rparr>, m)
      else
        (vopt_zero\<lparr>optname := Heap (fresh (live m)) (strncpy_bytes (str_view option) noption),
           noptname := noption, flags := fl\<rparr>,
         m\<lparr>live := fresh (live m) # live m\<rparr>))"

text \<open>
  The heap \<open>m'\<close> is the heap \<open>m\<close> with further blocks: every block of \<open>m\<close> is still
  live, in place, and no invalid \<^verbatim>\<open>free\<close> was added.
\<close>

definition mem_extends :: "memory \<Rightarrow> memory \<Rightarrow> bool" where
  "mem_extends m m' = ((\<exists>as. live m' = as @ live m) \<and> faults m' = faults m)"

text \<open>
  The strings the specification admits as numeric values: non-empty, an optional leading
  \<^verbatim>\<open>-\<close> followed only by digits.
\<close>

definition signed_digits :: "string \<Rightarrow> bool" where
  "signed_digits s = (s \<noteq> [] \<and> list_all isdigit (if hd s = CHR ''-'' then tl s else s))"

text \<open>The integer a decimal string denotes.\<close>

definition digit_value :: "char \<Rightarrow> nat" where
  "digit_value c = of_char c - 48"

definition decimal_nat :: "string \<Rightarrow> nat" where
  "decimal_nat s = foldl (\<lambda>a c. 10 * a + digit_value c) 0 s"

definition decimal_int :: "string \<Rightarrow> int" where
  "decimal_int s =
     (if hd s = CHR ''-'' then - int (decimal_nat (tl s)) else int (decimal_nat s))"



definition hex_value :: "char \<Rightarrow> nat" where
  "hex_value h = (if isdigit h then of_char h - 48 else of_char h - 55)"


text \<open>
  The heap blocks a record refers to, value first and name second (the order in which
  \<^verbatim>\<open>lcbex_vopt_cleanup\<close> looks at them), and the records whose flags agree with what
  they point to: a block of the heap is not marked constant, a string that is not on the
  heap is. These are the records \<^verbatim>\<open>lcbex_vopt_cleanup\<close> releases completely and
  without an invalid \<^verbatim>\<open>free\<close>.
\<close>

fun heap_addr :: "cptr \<Rightarrow> nat list" where
  "heap_addr (Heap a bs) = [a]"
| "heap_addr p = []"

definition rec_addrs :: "lcbex_vopt_st \<Rightarrow> nat list" where
  "rec_addrs r = heap_addr (optval r) @ heap_addr (optname r)"

fun owned_as_flagged :: "cptr \<Rightarrow> bool \<Rightarrow> bool" where
  "owned_as_flagged Null c = True"
| "owned_as_flagged (Heap a bs) c = (\<not> c)"
| "owned_as_flagged (Static s) c = c"
| "owned_as_flagged (Caller s) c = c"

definition tidy :: "lcbex_vopt_st \<Rightarrow> bool" where
  "tidy r = (owned_as_flagged (optname r) (bit (flags r) 4) \<and>
             owned_as_flagged (optval r) (bit (flags r) 3))"

text \<open>
  What a handler called with no flags does to the record \<open>optobj\<close> and the heap \<open>m1\<close>:
  the name is kept, and the value is left alone, or set to a string constant, or set to
  a fresh block of the heap.
\<close>

definition value_stored :: "lcbex_vopt_st \<Rightarrow> lcbex_vopt_st \<Rightarrow> memory \<Rightarrow> memory \<Rightarrow> bool" where
  "value_stored optobj r' m1 m' =
     (optname r' = optname optobj \<and> (bit (flags r') 4 \<longleftrightarrow> bit (flags optobj) 4) \<and>
      (optval r' = optval optobj \<and> (bit (flags optobj) 3 \<longrightarrow> bit (flags r') 3) \<and> m' = m1 \<or>
       (\<exists>s. optval r' = Static s) \<and> bit (flags r') 3 \<and> m' = m1 \<or>
       (\<exists>bs. optval r' = Heap (fresh (live m1)) bs) \<and> \<not> bit (flags r') 3 \<and>
         m' = m1\<lparr>live := fresh (live m1) # live m1\<rparr>))"

text \<open>
  The heap \<open>m'\<close> is the heap \<open>m\<close> and, in front of it, exactly the blocks of the record
  \<open>r'\<close>.
\<close>

definition allocated :: "lcbex_vopt_st \<Rightarrow> memory \<Rightarrow> memory \<Rightarrow> bool" where
  "allocated r' m m' =
     (tidy r' \<and> live m' = rec_addrs r' @ live m \<and> faults m' = faults m \<and>
      distinct (rec_addrs r') \<and> set (rec_addrs r') \<inter> set (live m) = {})"

text \<open>
  The invariant of the loop of \<^verbatim>\<open>lcbex_vopt_createv\<close>, entered with the heap \<open>m0\<close>:
  what the heap holds beyond \<open>m0\<close> is the array and the blocks of its records, each once.
\<close>

definition batch_inv :: "memory \<Rightarrow> nat \<Rightarrow> lcbex_vopt_st list \<Rightarrow> memory \<Rightarrow> bool" where
  "batch_inv m0 arr opts m =
     ((\<exists>xs. live m = xs @ live m0 \<and> set xs = set (arr # concat (map rec_addrs opts)) \<and>
            set xs \<inter> set (live m0) = {}) \<and>
      faults m = faults m0 \<and> distinct (arr # concat (map rec_addrs opts)) \<and>
      (\<forall>r\<in>set opts. tidy r))"


text \<open>
  The number of bytes the query string of a list of records takes, as the specification
  counts it: the \<^verbatim>\<open>?\<close>, for each record its name, \<^verbatim>\<open>=\<close>, its value and \<^verbatim>\<open>&\<close>, and the
  terminator. This is a natural number, not a \<^verbatim>\<open>size_t\<close>.
\<close>

definition query_size :: "lcbex_vopt_st list \<Rightarrow> nat" where
  "query_size options = 1 + (\<Sum>r\<leftarrow>options. noptname r + 1 + noptval r + 1) + 1"

text \<open>The path of a view, as the specification writes it.\<close>

definition uri_path :: "string \<Rightarrow> string \<Rightarrow> string" where
  "uri_path design view = ''_design/'' @ design @ ''/_view/'' @ view"

section \<open>Properties\<close>

subsection \<open>Buffer sizes of the query string\<close>

lemma length_memcpy_bytes: "length (memcpy_bytes s n) = n"
  by (simp add: memcpy_bytes_def)

lemma write_option_bufp:
  "snd (write_option curopt buf bufp) = bufp + noptname curopt + noptval curopt + 2"
  by (simp add: write_option_def Let_def)

lemma write_option_length:
  "length buf = bufp \<Longrightarrow>
   length (fst (write_option curopt buf bufp)) = snd (write_option curopt buf bufp)"
  by (simp add: write_option_def Let_def length_memcpy_bytes)

lemma write_loop_bufp:
  "snd (write_loop options buf bufp) =
     bufp + (\<Sum>r\<leftarrow>options. noptname r + 1 + noptval r + 1)"
proof (induction options arbitrary: buf bufp)
  case Nil
  show ?case by simp
next
  case (Cons curopt rest)
  obtain b p where wo: "write_option curopt buf bufp = (b, p)"
    by (cases "write_option curopt buf bufp")
  have p: "p = bufp + noptname curopt + noptval curopt + 2"
    using write_option_bufp [of curopt buf bufp] wo by simp
  show ?case
    using Cons.IH [of b p] wo p by simp
qed

lemma write_loop_length:
  "length buf = bufp \<Longrightarrow>
   length (fst (write_loop options buf bufp)) = snd (write_loop options buf bufp)"
proof (induction options arbitrary: buf bufp)
  case Nil
  then show ?case by simp
next
  case (Cons curopt rest)
  obtain b p where wo: "write_option curopt buf bufp = (b, p)"
    by (cases "write_option curopt buf bufp")
  have "length b = p"
    using write_option_length [OF Cons.prems, of curopt] wo by simp
  then show ?case
    using Cons.IH [of b p] wo by simp
qed

lemma write_loop_query_size:
  "snd (write_loop options ''?'' 1) + 1 = query_size options"
  by (simp add: write_loop_bufp query_size_def)

lemma size_t_of_int_nat: "size_t_of_int (int n) = n mod 2 ^ 64"
proof -
  have "int n mod 2 ^ 64 = int (n mod 2 ^ 64)"
    by (simp add: zmod_int)
  then show ?thesis
    by (simp add: size_t_of_int_def)
qed

lemma write_length:
  "length (fst (lcbex_vqstr_write options)) + 2 = query_size options \<and>
   snd (lcbex_vqstr_write options) = length (fst (lcbex_vqstr_write options)) mod 2 ^ 64"
proof -
  obtain buf bufp where wl: "write_loop options ''?'' 1 = (buf, bufp)"
    by (cases "write_loop options ''?'' 1")
  have bufp: "bufp + 1 = query_size options"
    using write_loop_query_size [of options] wl by simp
  have len: "length buf = bufp"
    using write_loop_length [of "''?''" 1 options] wl by simp
  have ge: "1 \<le> bufp"
    using write_loop_bufp [of options "''?''" 1] wl by simp
  show ?thesis
    using wl bufp len ge
    by (simp add: lcbex_vqstr_write_def Let_def size_t_of_int_nat)
qed

text \<open>
  \<^verbatim>\<open>lcbex_vqstr_calc_len\<close> returns the size of the query string modulo \<open>2 ^ 64\<close>, which
  is the size itself when that is a \<^verbatim>\<open>size_t\<close>.
\<close>

lemma calc_len_loop_mod:
  "calc_len_loop options ret mod 2 ^ 64 =
     (ret + (\<Sum>r\<leftarrow>options. noptname r + 1 + noptval r + 1)) mod 2 ^ 64"
proof (induction options arbitrary: ret)
  case Nil
  show ?case by simp
next
  case (Cons curopt rest)
  let ?ret = "size_t_add (size_t_add (size_t_add ret (noptname curopt)) (noptval curopt)) 2"
  let ?rest = "\<Sum>r\<leftarrow>rest. noptname r + 1 + noptval r + 1"
  have "calc_len_loop (curopt # rest) ret mod 2 ^ 64 = calc_len_loop rest ?ret mod 2 ^ 64"
    by (simp add: Let_def)
  also have "\<dots> = (?ret + ?rest) mod 2 ^ 64"
    by (rule Cons.IH)
  also have "\<dots> = (?ret mod 2 ^ 64 + ?rest) mod 2 ^ 64"
    by (simp add: mod_add_left_eq)
  also have "?ret mod 2 ^ 64 = (ret + noptname curopt + noptval curopt + 2) mod 2 ^ 64"
    by (simp add: size_t_add_def mod_simps)
  also have "((ret + noptname curopt + noptval curopt + 2) mod 2 ^ 64 + ?rest) mod 2 ^ 64 =
      (ret + (\<Sum>r\<leftarrow>curopt # rest. noptname r + 1 + noptval r + 1)) mod 2 ^ 64"
    by (simp add: mod_simps add_ac)
  finally show ?case .
qed

lemma calc_len_mod: "lcbex_vqstr_calc_len options = query_size options mod 2 ^ 64"
proof -
  have "lcbex_vqstr_calc_len options = (calc_len_loop options 1 mod 2 ^ 64 + 1) mod 2 ^ 64"
    by (simp add: lcbex_vqstr_calc_len_def size_t_add_def mod_simps)
  also have "\<dots> = query_size options mod 2 ^ 64"
    unfolding calc_len_loop_mod by (simp add: query_size_def mod_simps)
  finally show ?thesis .
qed

lemma calc_len_exact:
  "query_size options \<le> SIZE_MAX \<Longrightarrow> lcbex_vqstr_calc_len options = query_size options"
  by (simp add: calc_len_mod SIZE_MAX_def)

text \<open>
  Claim C8, as amended. For every list of option records whose query string, with its
  terminator, has a size that is a \<^verbatim>\<open>size_t\<close> (at most \<^verbatim>\<open>SIZE_MAX\<close>),
  \<^verbatim>\<open>lcbex_vqstr_calc_len\<close> returns that size, and the length \<^verbatim>\<open>lcbex_vqstr_write\<close>
  returns is at most that value minus one. The returned length is the number of bytes
  before the terminator, and every byte the loop writes (the \<^verbatim>\<open>?\<close>, the options with
  their separators, whose last one the terminator replaces) lies inside a buffer of
  \<^verbatim>\<open>lcbex_vqstr_calc_len\<close> bytes.
\<close>

theorem write_within_calc_len:
  assumes "query_size options \<le> SIZE_MAX"
  shows "lcbex_vqstr_calc_len options = query_size options \<and>
   snd (lcbex_vqstr_write options) \<le> lcbex_vqstr_calc_len options - 1 \<and>
   length (fst (lcbex_vqstr_write options)) = snd (lcbex_vqstr_write options) \<and>
   length (fst (write_loop options ''?'' 1)) < lcbex_vqstr_calc_len options"
proof -
  have c: "lcbex_vqstr_calc_len options = query_size options"
    by (rule calc_len_exact [OF assms])
  have l: "length (fst (write_loop options ''?'' 1)) = snd (write_loop options ''?'' 1)"
    by (rule write_loop_length) simp
  have wq: "length (fst (lcbex_vqstr_write options)) + 2 = query_size options"
    and ws: "snd (lcbex_vqstr_write options) =
      length (fst (lcbex_vqstr_write options)) mod 2 ^ 64"
    using write_length [of options] by simp_all
  have "length (fst (lcbex_vqstr_write options)) < 2 ^ 64"
    using wq assms by (simp add: SIZE_MAX_def)
  then have wl: "length (fst (lcbex_vqstr_write options)) = snd (lcbex_vqstr_write options)"
    using ws by simp
  have w: "snd (lcbex_vqstr_write options) + 2 = query_size options"
    using wq wl by simp
  have b: "snd (write_loop options ''?'' 1) + 1 = query_size options"
    by (rule write_loop_query_size)
  have "snd (lcbex_vqstr_write options) \<le> query_size options - 1"
    using w by arith
  moreover have "length (fst (write_loop options ''?'' 1)) < query_size options"
    using l b by arith
  ultimately show ?thesis
    using c wl by simp
qed

theorem write_within_calc_len_witness:
  "query_size
     [\<lparr>optname = Static ''stale'', optval = Static ''false'', noptname = 5, noptval = 5,
        flags = 24\<rparr>] \<le> SIZE_MAX \<and>
   lcbex_vqstr_calc_len
     [\<lparr>optname = Static ''stale'', optval = Static ''false'', noptname = 5, noptval = 5,
        flags = 24\<rparr>] = 14 \<and>
   snd (lcbex_vqstr_write
     [\<lparr>optname = Static ''stale'', optval = Static ''false'', noptname = 5, noptval = 5,
        flags = 24\<rparr>]) = 12"
proof -
  let ?r = "\<lparr>optname = Static ''stale'', optval = Static ''false'', noptname = 5,
    noptval = 5, flags = 24\<rparr>"
  have q: "query_size [?r] = 14" by (simp add: query_size_def)
  have h: "query_size [?r] \<le> SIZE_MAX" by (simp add: q SIZE_MAX_def)
  note t = write_within_calc_len [OF h]
  have w: "snd (lcbex_vqstr_write [?r]) = 12"
    by (simp add: lcbex_vqstr_write_def write_option_def Let_def size_t_of_int_def)
  show ?thesis using h t q w by simp
qed

lemma replicate_2: "replicate 2 x = [x, x]"
  by (simp add: numeral_eq_Suc)

text \<open>
  Claim C8, as stated, fails. Two pointers to one record whose name has \<open>2 ^ 63 - 4\<close>
  bytes and whose value has one make an option list whose query string has \<open>2 ^ 64\<close>
  bytes with the terminator: the sum in \<^verbatim>\<open>lcbex_vqstr_calc_len\<close> wraps around to 0,
  while \<^verbatim>\<open>lcbex_vqstr_write\<close> writes all the bytes and returns \<open>2 ^ 64 - 2\<close>.
\<close>

theorem calc_len_wraps_around:
  "lcbex_vqstr_calc_len
     (replicate 2 \<lparr>optname = Heap 1 (replicate (2 ^ 63 - 4) (CHR ''k'')), optval = Heap 2 ''1'',
        noptname = 2 ^ 63 - 4, noptval = 1, flags = 0\<rparr>) = 0 \<and>
   snd (lcbex_vqstr_write
     (replicate 2 \<lparr>optname = Heap 1 (replicate (2 ^ 63 - 4) (CHR ''k'')), optval = Heap 2 ''1'',
        noptname = 2 ^ 63 - 4, noptval = 1, flags = 0\<rparr>)) = 2 ^ 64 - 2 \<and>
   length (fst (lcbex_vqstr_write
     (replicate 2 \<lparr>optname = Heap 1 (replicate (2 ^ 63 - 4) (CHR ''k'')), optval = Heap 2 ''1'',
        noptname = 2 ^ 63 - 4, noptval = 1, flags = 0\<rparr>))) = 2 ^ 64 - 2 \<and>
   \<not> snd (lcbex_vqstr_write
     (replicate 2 \<lparr>optname = Heap 1 (replicate (2 ^ 63 - 4) (CHR ''k'')), optval = Heap 2 ''1'',
        noptname = 2 ^ 63 - 4, noptval = 1, flags = 0\<rparr>))
     \<le> lcbex_vqstr_calc_len
     (replicate 2 \<lparr>optname = Heap 1 (replicate (2 ^ 63 - 4) (CHR ''k'')), optval = Heap 2 ''1'',
        noptname = 2 ^ 63 - 4, noptval = 1, flags = 0\<rparr>) - 1"
proof -
  let ?r = "\<lparr>optname = Heap 1 (replicate (2 ^ 63 - 4) (CHR ''k'')), optval = Heap 2 ''1'',
        noptname = 2 ^ 63 - 4, noptval = 1, flags = 0\<rparr>"
  have q: "query_size (replicate 2 ?r) = 2 ^ 64"
    by (simp add: query_size_def replicate_2)
  have c: "lcbex_vqstr_calc_len (replicate 2 ?r) = 0"
    unfolding calc_len_mod q by simp
  have l: "length (fst (lcbex_vqstr_write (replicate 2 ?r))) = 2 ^ 64 - 2"
    using write_length [of "replicate 2 ?r"] q by simp
  have w: "snd (lcbex_vqstr_write (replicate 2 ?r)) = 2 ^ 64 - 2"
    using write_length [of "replicate 2 ?r"] l by simp
  show ?thesis using c w l by simp
qed

subsection \<open>Flags and the heap\<close>

lemma flag_test: "(f AND push_bit k 1 = 0) \<longleftrightarrow> \<not> bit f k" for f :: int
  by (simp only: push_bit_of_1 and_exp_eq_0_iff_not_bit)

lemma bit_set_flag: "bit (f OR push_bit k 1) j \<longleftrightarrow> bit f j \<or> j = k" for f :: int
  by (simp only: push_bit_of_1 bit_or_iff bit_exp_iff) auto

lemma bit_clear_flag: "bit (f AND NOT (push_bit k 1)) j \<longleftrightarrow> bit f j \<and> j \<noteq> k" for f :: int
  by (simp only: push_bit_of_1 bit_and_iff bit_not_iff bit_exp_iff) auto

lemmas flag_tests =
  flag_test [of _ 0, folded LCBEX_VOPT_F_PCTENCODE_def]
  flag_test [of _ 1, folded LCBEX_VOPT_F_OPTVAL_NUMERIC_def]
  flag_test [of _ 2, folded LCBEX_VOPT_F_PASSTHROUGH_def]
  flag_test [of _ 3, folded LCBEX_VOPT_F_OPTVAL_CONSTANT_def]
  flag_test [of _ 4, folded LCBEX_VOPT_F_OPTNAME_CONSTANT_def]
  flag_test [of _ 5, folded LCBEX_VOPT_F_OPTNAME_NUMERIC_def]

lemmas flag_sets =
  bit_set_flag [of _ 3, folded LCBEX_VOPT_F_OPTVAL_CONSTANT_def]
  bit_set_flag [of _ 4, folded LCBEX_VOPT_F_OPTNAME_CONSTANT_def]
  bit_clear_flag [of _ 3, folded LCBEX_VOPT_F_OPTVAL_CONSTANT_def]

lemma le_fold_max: "b \<le> fold max as (b::nat)"
proof (induction as arbitrary: b)
  case Nil
  show ?case by simp
next
  case (Cons a as)
  have "b \<le> max a b" by simp
  also have "\<dots> \<le> fold max as (max a b)" by (rule Cons.IH)
  finally show ?case by simp
qed

lemma member_le_fold_max: "a \<in> set as \<Longrightarrow> a \<le> fold max as (b::nat)"
proof (induction as arbitrary: b)
  case Nil
  then show ?case by simp
next
  case (Cons x as)
  show ?case
  proof (cases "a = x")
    case True
    have "a \<le> max x b" using True by simp
    also have "\<dots> \<le> fold max as (max x b)" by (rule le_fold_max)
    finally show ?thesis by simp
  next
    case False
    then have "a \<in> set as" using Cons.prems by simp
    then show ?thesis using Cons.IH by simp
  qed
qed

lemma fresh_notin: "fresh as \<notin> set as"
proof
  assume "fresh as \<in> set as"
  then have "fresh as \<le> fold max as 0" by (rule member_le_fold_max)
  then show False by (simp add: fresh_def)
qed



subsection \<open>Failing handlers, and the paths of the assignment\<close>

lemma bool_param_handler_fails:
  "bool_param_handler optobj value nvalue fl error m = (rc, r', e', m') \<Longrightarrow> rc \<noteq> LCB_SUCCESS \<Longrightarrow>
   rc = LCB_EINVAL \<and> r' = optobj \<and> e' \<noteq> None \<and> m' = m"
  by (auto simp: bool_param_handler_def Let_def split: if_splits option.splits)


lemma num_param_handler_fails:
  "num_param_handler optobj value nvalue fl error m = (rc, r', e', m') \<Longrightarrow> rc \<noteq> LCB_SUCCESS \<Longrightarrow>
   rc = LCB_EINVAL \<and> r' = optobj \<and> e' \<noteq> None \<and> m' = m"
  by (auto simp: num_param_handler_def Let_def split: if_splits prod.splits)


lemma string_param_handler_fails:
  "string_param_handler optobj value nvalue fl error m = (rc, r', e', m') \<Longrightarrow> rc \<noteq> LCB_SUCCESS \<Longrightarrow>
   rc = LCB_EINVAL \<and> r' = optobj \<and> e' \<noteq> None \<and> m' = m"
  by (auto simp: string_param_handler_def Let_def split: if_splits prod.splits)

lemma stale_param_handler_fails:
  "stale_param_handler optobj value nvalue fl error m = (rc, r', e', m') \<Longrightarrow> rc \<noteq> LCB_SUCCESS \<Longrightarrow>
   rc = LCB_EINVAL \<and> r' = optobj\<lparr>flags := flags optobj OR LCBEX_VOPT_F_OPTVAL_CONSTANT\<rparr> \<and> e' \<noteq> None \<and> m' = m"
  by (auto simp: stale_param_handler_def Let_def split: if_splits prod.splits dest!: bool_param_handler_fails)

lemma onerror_param_handler_fails:
  "onerror_param_handler optobj value nvalue fl error m = (rc, r', e', m') \<Longrightarrow> rc \<noteq> LCB_SUCCESS \<Longrightarrow>
   rc = LCB_EINVAL \<and> r' = optobj\<lparr>flags := flags optobj OR LCBEX_VOPT_F_OPTVAL_CONSTANT\<rparr> \<and> e' \<noteq> None \<and> m' = m"
  by (auto simp: onerror_param_handler_def Let_def split: if_splits prod.splits)

lemma call_handler_fails:
  "call_handler h optobj value nvalue fl error m = (rc, r', e', m') \<Longrightarrow> rc \<noteq> LCB_SUCCESS \<Longrightarrow>
   rc = LCB_EINVAL \<and> e' \<noteq> None \<and> m' = m \<and>
   (r' = optobj \<or> r' = optobj\<lparr>flags := flags optobj OR LCBEX_VOPT_F_OPTVAL_CONSTANT\<rparr>)"
  by (cases h)
    (auto dest: bool_param_handler_fails num_param_handler_fails string_param_handler_fails
      stale_param_handler_fails onerror_param_handler_fails)

lemma assign_missing_value:
  "fl AND LCBEX_VOPT_F_OPTVAL_NUMERIC = 0 \<Longrightarrow> effective_len nvalue (str_view value) = 0 \<Longrightarrow>
   lcbex_vopt_assign r0 option noption value nvalue fl e m =
     (LCB_EINVAL, vopt_zero, Some ''Missing value length'', m)"
  by (simp add: lcbex_vopt_assign_def Let_def effective_len_def)

lemma assign_missing_name:
  "fl AND LCBEX_VOPT_F_OPTVAL_NUMERIC \<noteq> 0 \<or> effective_len nvalue (str_view value) \<noteq> 0 \<Longrightarrow>
   fl AND LCBEX_VOPT_F_OPTNAME_NUMERIC = 0 \<Longrightarrow> effective_len noption (str_view option) = 0 \<Longrightarrow>
   lcbex_vopt_assign r0 option noption value nvalue fl e m =
     (LCB_EINVAL, vopt_zero, Some ''Missing option name length'', m)"
  by (auto simp add: lcbex_vopt_assign_def Let_def effective_len_def)

lemma assign_passthrough_numeric_name:
  "fl AND LCBEX_VOPT_F_OPTVAL_NUMERIC \<noteq> 0 \<or> effective_len nvalue (str_view value) \<noteq> 0 \<Longrightarrow>
   fl AND LCBEX_VOPT_F_OPTNAME_NUMERIC \<noteq> 0 \<Longrightarrow>
   fl AND LCBEX_VOPT_F_PASSTHROUGH \<noteq> 0 \<Longrightarrow>
   lcbex_vopt_assign r0 option noption value nvalue fl e m =
     (LCB_EINVAL, vopt_zero,
      Some (''Can'' @ [CHR 0x27] @ ''t use passthrough with option constants''), m)"
  by (auto simp add: lcbex_vopt_assign_def Let_def effective_len_def)

lemma assign_passthrough:
  "fl AND LCBEX_VOPT_F_OPTVAL_NUMERIC \<noteq> 0 \<or> effective_len nvalue (str_view value) \<noteq> 0 \<Longrightarrow>
   fl AND LCBEX_VOPT_F_OPTNAME_NUMERIC = 0 \<Longrightarrow> effective_len noption (str_view option) \<noteq> 0 \<Longrightarrow>
   fl AND LCBEX_VOPT_F_PASSTHROUGH \<noteq> 0 \<Longrightarrow>
   lcbex_vopt_assign r0 option noption value nvalue fl e m =
     (if fl AND LCBEX_VOPT_F_OPTVAL_NUMERIC \<noteq> 0 then num_param_handler else string_param_handler)
       (vopt_zero\<lparr>optname := Heap (fresh (live m))
           (strncpy_bytes (str_view option) (effective_len noption (str_view option))),
         noptname := effective_len noption (str_view option)\<rparr>)
       value (effective_len nvalue (str_view value)) fl e (m\<lparr>live := fresh (live m) # live m\<rparr>)"
  by (auto simp add: lcbex_vopt_assign_def Let_def effective_len_def my_strndup_def malloc_def)

lemma assign_lookup:
  "fl AND LCBEX_VOPT_F_OPTVAL_NUMERIC \<noteq> 0 \<or> effective_len nvalue (str_view value) \<noteq> 0 \<Longrightarrow>
   fl AND LCBEX_VOPT_F_OPTNAME_NUMERIC \<noteq> 0 \<or> effective_len noption (str_view option) \<noteq> 0 \<Longrightarrow>
   fl AND LCBEX_VOPT_F_PASSTHROUGH = 0 \<Longrightarrow>
   lcbex_vopt_assign r0 option noption value nvalue fl e m =
     (case find_view_param option (effective_len noption (str_view option)) fl of
        None \<Rightarrow> (LCB_EINVAL, vopt_zero\<lparr>flags := fl\<rparr>, Some ''Unrecognized option'', m)
      | Some vparam \<Rightarrow>
          (case named_record vparam option (effective_len noption (str_view option)) fl m of
             (optobj, m1) \<Rightarrow>
               call_handler (handler vparam) optobj value
                 (effective_len nvalue (str_view value)) fl e m1))"
  by (auto simp add: lcbex_vopt_assign_def Let_def effective_len_def my_strndup_def malloc_def
      named_record_def vopt_zero_def split: option.splits)

lemma num_param_handler_numeric:
  "fl AND LCBEX_VOPT_F_OPTVAL_NUMERIC \<noteq> 0 \<Longrightarrow>
   fst (num_param_handler optobj value nvalue fl error m) = LCB_SUCCESS"
  by (simp add: num_param_handler_def Let_def split: prod.splits)

lemma string_param_handler_string:
  "fl AND LCBEX_VOPT_F_OPTVAL_NUMERIC = 0 \<Longrightarrow>
   fst (string_param_handler optobj value nvalue fl error m) = LCB_SUCCESS"
  by (simp add: string_param_handler_def Let_def split: prod.splits)





lemma named_record_value:
  "named_record vparam option noption fl m = (optobj, m1) \<Longrightarrow>
   optval optobj = Null \<and> noptval optobj = 0 \<and> optname optobj \<noteq> Null"
  by (auto simp: named_record_def vopt_zero_def split: if_splits)



subsection \<open>Evaluation at concrete inputs\<close>

lemmas eval_defs =
  lcbex_vopt_assign_def Let_def str_arg_def int_arg_def strlen_def cstring_def NUL_def
  find_view_param_def recognized_view_params_def my_strndup_def malloc_def fresh_def
  mem_empty_def vopt_zero_def strncpy_bytes_def memcpy_bytes_def set_user_string_def
  tolower_def char_of_eq_iff SIZE_MAX_def quoted_def
  LCBEX_VOPT_F_PCTENCODE_def LCBEX_VOPT_F_OPTVAL_NUMERIC_def LCBEX_VOPT_F_PASSTHROUGH_def
  LCBEX_VOPT_F_OPTVAL_CONSTANT_def LCBEX_VOPT_F_OPTNAME_CONSTANT_def
  LCBEX_VOPT_F_OPTNAME_NUMERIC_def




subsection \<open>The assignment and the record it is given\<close>

lemma mem_extends_refl: "mem_extends m m"
  by (simp add: mem_extends_def)

lemma mem_extends_trans: "mem_extends m1 m2 \<Longrightarrow> mem_extends m2 m3 \<Longrightarrow> mem_extends m1 m3"
  by (auto simp: mem_extends_def)

lemma mem_extends_cons: "mem_extends m (m\<lparr>live := a # live m\<rparr>)"
  by (simp add: mem_extends_def)

lemma set_user_string_memory:
  "set_user_string optobj value nvalue fl m = (r', m') \<Longrightarrow>
   m' = m \<or> m' = m\<lparr>live := fresh (live m) # live m\<rparr>"
  by (auto simp: set_user_string_def my_strndup_def malloc_def Let_def split: if_splits)

lemma bool_param_handler_memory:
  "bool_param_handler optobj value nvalue fl e m = (rc, r', e', m') \<Longrightarrow> m' = m"
  by (auto simp: bool_param_handler_def Let_def split: option.splits if_splits)

lemma num_param_handler_memory:
  "num_param_handler optobj value nvalue fl e m = (rc, r', e', m') \<Longrightarrow>
   m' = m \<or> m' = m\<lparr>live := fresh (live m) # live m\<rparr>"
  by (auto simp: num_param_handler_def malloc_def Let_def split: if_splits prod.splits
      dest: set_user_string_memory)

lemma string_param_handler_memory:
  "string_param_handler optobj value nvalue fl e m = (rc, r', e', m') \<Longrightarrow>
   m' = m \<or> m' = m\<lparr>live := fresh (live m) # live m\<rparr>"
  by (auto simp: string_param_handler_def malloc_def Let_def split: if_splits prod.splits
      dest: set_user_string_memory)

lemma stale_param_handler_memory:
  "stale_param_handler optobj value nvalue fl e m = (rc, r', e', m') \<Longrightarrow> m' = m"
  by (auto simp: stale_param_handler_def Let_def split: if_splits prod.splits
      dest: bool_param_handler_memory)

lemma onerror_param_handler_memory:
  "onerror_param_handler optobj value nvalue fl e m = (rc, r', e', m') \<Longrightarrow> m' = m"
  by (auto simp: onerror_param_handler_def Let_def split: if_splits)

lemma call_handler_memory:
  "call_handler h optobj value nvalue fl e m = (rc, r', e', m') \<Longrightarrow>
   m' = m \<or> m' = m\<lparr>live := fresh (live m) # live m\<rparr>"
  by (cases h)
    (auto dest: bool_param_handler_memory num_param_handler_memory string_param_handler_memory
      stale_param_handler_memory onerror_param_handler_memory)

lemma call_handler_extends:
  "call_handler h optobj value nvalue fl e m = (rc, r', e', m') \<Longrightarrow> mem_extends m m'"
  by (auto dest!: call_handler_memory simp: mem_extends_refl mem_extends_cons)


lemma named_record_extends:
  "named_record vparam option noption fl m = (optobj, m1) \<Longrightarrow> mem_extends m m1"
  by (auto simp: named_record_def mem_extends_refl mem_extends_cons split: if_splits)

lemma assign_extends:
  assumes a: "lcbex_vopt_assign r0 option noption value nvalue fl e m = (rc, r', e', m')"
  shows "mem_extends m m'"
proof -
  let ?nv = "effective_len nvalue (str_view value)"
  let ?no = "effective_len noption (str_view option)"
  consider
    (missing_value) "fl AND LCBEX_VOPT_F_OPTVAL_NUMERIC = 0" "?nv = 0"
  | (missing_name) "fl AND LCBEX_VOPT_F_OPTVAL_NUMERIC \<noteq> 0 \<or> ?nv \<noteq> 0"
      "fl AND LCBEX_VOPT_F_OPTNAME_NUMERIC = 0" "?no = 0"
  | (pass_numeric) "fl AND LCBEX_VOPT_F_OPTVAL_NUMERIC \<noteq> 0 \<or> ?nv \<noteq> 0"
      "fl AND LCBEX_VOPT_F_OPTNAME_NUMERIC \<noteq> 0" "fl AND LCBEX_VOPT_F_PASSTHROUGH \<noteq> 0"
  | (pass) "fl AND LCBEX_VOPT_F_OPTVAL_NUMERIC \<noteq> 0 \<or> ?nv \<noteq> 0"
      "fl AND LCBEX_VOPT_F_OPTNAME_NUMERIC = 0" "?no \<noteq> 0" "fl AND LCBEX_VOPT_F_PASSTHROUGH \<noteq> 0"
  | (lookup) "fl AND LCBEX_VOPT_F_OPTVAL_NUMERIC \<noteq> 0 \<or> ?nv \<noteq> 0"
      "fl AND LCBEX_VOPT_F_OPTNAME_NUMERIC \<noteq> 0 \<or> ?no \<noteq> 0" "fl AND LCBEX_VOPT_F_PASSTHROUGH = 0"
    by blast
  then show ?thesis
  proof cases
    case missing_value
    show ?thesis
      using a assign_missing_value [OF missing_value, of r0 option noption e m]
      by (simp add: mem_extends_refl)
  next
    case missing_name
    show ?thesis
      using a assign_missing_name [OF missing_name, of r0 e m] by (simp add: mem_extends_refl)
  next
    case pass_numeric
    show ?thesis
      using a assign_passthrough_numeric_name [OF pass_numeric, of r0 option noption e m]
      by (simp add: mem_extends_refl)
  next
    case pass
    let ?m1 = "m\<lparr>live := fresh (live m) # live m\<rparr>"
    have "mem_extends ?m1 m'"
      using a assign_passthrough [OF pass, of r0 e m]
        call_handler_extends [of num_handler _ "value" "?nv" fl e "?m1" rc r' e' m']
        call_handler_extends [of string_handler _ "value" "?nv" fl e "?m1" rc r' e' m']
      by (simp split: if_splits)
    then show ?thesis
      by (rule mem_extends_trans [OF mem_extends_cons])
  next
    case lookup
    note eq = assign_lookup [OF lookup, of r0 e m]
    show ?thesis
    proof (cases "find_view_param option ?no fl")
      case None
      then show ?thesis using a eq by (simp add: mem_extends_refl)
    next
      case (Some vparam)
      obtain optobj m1 where nr: "named_record vparam option ?no fl m = (optobj, m1)"
        by (cases "named_record vparam option ?no fl m")
      have call: "call_handler (handler vparam) optobj value ?nv fl e m1 = (rc, r', e', m')"
        using a eq Some nr by simp
      show ?thesis
        by (rule mem_extends_trans [OF named_record_extends [OF nr] call_handler_extends [OF call]])
    qed
  qed
qed

text \<open>
  Claim C10. The result of \<^verbatim>\<open>lcbex_vopt_assign\<close> (status, record, error string and heap)
  does not depend on the record the caller passes: two calls that differ only in it give
  the same result. Nothing the old record held is released: the heap after the call is
  the heap before it, extended.
\<close>

theorem assign_ignores_prior_record:
  "lcbex_vopt_assign r1 option noption value nvalue fl e m =
     lcbex_vopt_assign r2 option noption value nvalue fl e m \<and>
   mem_extends m (snd (snd (snd (lcbex_vopt_assign r1 option noption value nvalue fl e m))))"
proof
  show "lcbex_vopt_assign r1 option noption value nvalue fl e m =
     lcbex_vopt_assign r2 option noption value nvalue fl e m"
    by (simp add: lcbex_vopt_assign_def)
next
  obtain rc r' e' m' where a: "lcbex_vopt_assign r1 option noption value nvalue fl e m = (rc, r', e', m')"
    by (cases "lcbex_vopt_assign r1 option noption value nvalue fl e m")
  show "mem_extends m (snd (snd (snd (lcbex_vopt_assign r1 option noption value nvalue fl e m))))"
    using assign_extends [OF a] a by simp
qed

subsection \<open>The lookup of option names\<close>

lemma of_char_eq_0_iff: "of_char c = (0::nat) \<longleftrightarrow> c = NUL"
proof -
  have "of_char c = (0::nat) \<longleftrightarrow> of_char c = (of_char NUL :: nat)"
    by (simp add: NUL_def)
  then show ?thesis by (simp only: of_char_eq_iff)
qed

lemma cstring_Cons: "cstring (x # xs) = (if x = NUL then [] else x # cstring xs)"
  by (simp add: cstring_def)

lemma cstring_Nil: "cstring [] = []"
  by (simp add: cstring_def)

lemma strncmp_eq_0: "strncmp s t n = 0 \<longleftrightarrow> take n (cstring s) = take n (cstring t)"
proof (induction s t n rule: strncmp.induct)
  case (1 x xs y ys n)
  show ?case
  proof (cases "n = 0")
    case True
    then show ?thesis by simp
  next
    case n: False
    then obtain k where k: "n = Suc k" by (cases n) auto
    show ?thesis
    proof (cases "x = y")
      case False
      then have "int (of_char x) - int (of_char y) \<noteq> 0" by simp
      then show ?thesis using False n k by (auto simp: cstring_Cons)
    next
      case True
      then show ?thesis using 1 n k by (auto simp: cstring_Cons)
    qed
  qed
next
  case (2 y ys n)
  show ?case by (cases n) (auto simp: cstring_Cons cstring_Nil of_char_eq_0_iff)
next
  case (3 x xs n)
  show ?case by (cases n) (auto simp: cstring_Cons cstring_Nil of_char_eq_0_iff)
next
  case (4 n)
  show ?case by simp
qed

lemma prefix_take_iff: "prefix xs ys \<longleftrightarrow> xs = take (length xs) ys"
  by (metis append_eq_conv_conj prefix_def take_is_prefix)

lemma strncmp_strlen: "strncmp s t (strlen s) = 0 \<longleftrightarrow> prefix (cstring s) (cstring t)"
  by (simp add: strncmp_eq_0 strlen_def prefix_take_iff)

lemma find_view_param_from_None:
  "fl AND LCBEX_VOPT_F_OPTNAME_NUMERIC = 0 \<Longrightarrow>
   find_view_param_from ps option n fl = None \<longleftrightarrow>
     (\<forall>p\<in>set ps. strncmp (str_view option) (param p) n \<noteq> 0)"
  by (induction ps) auto

lemma cstring_param:
  "p \<in> set recognized_view_params \<Longrightarrow> cstring (param p) = param p"
  by (auto simp: recognized_view_params_def cstring_def NUL_def)

lemma find_view_param_None:
  assumes "fl AND LCBEX_VOPT_F_OPTNAME_NUMERIC = 0"
  shows "find_view_param option (strlen (str_view option)) fl = None \<longleftrightarrow>
     (\<forall>p\<in>set recognized_view_params. \<not> prefix (cstring (str_view option)) (param p))"
  using assms
  by (simp add: find_view_param_def find_view_param_from_None strncmp_strlen cstring_param)

lemmas flag_sets_more =
  bit_set_flag [of _ 2, folded LCBEX_VOPT_F_PASSTHROUGH_def]

lemma set_user_string_name:
  "set_user_string optobj value nvalue fl m = (r', m') \<Longrightarrow>
   optname r' = optname optobj \<and> noptname r' = noptname optobj"
  by (auto simp: set_user_string_def my_strndup_def malloc_def Let_def split: if_splits)

lemma bool_param_handler_name:
  "bool_param_handler optobj value nvalue fl e m = (rc, r', e', m') \<Longrightarrow>
   optname r' = optname optobj \<and> noptname r' = noptname optobj"
  by (auto simp: bool_param_handler_def Let_def split: option.splits if_splits)

lemma num_param_handler_name:
  "num_param_handler optobj value nvalue fl e m = (rc, r', e', m') \<Longrightarrow>
   optname r' = optname optobj \<and> noptname r' = noptname optobj"
  by (auto simp: num_param_handler_def malloc_def Let_def split: if_splits prod.splits
      dest: set_user_string_name)

lemma string_param_handler_name:
  "string_param_handler optobj value nvalue fl e m = (rc, r', e', m') \<Longrightarrow>
   optname r' = optname optobj \<and> noptname r' = noptname optobj"
  by (auto simp: string_param_handler_def malloc_def Let_def split: if_splits prod.splits
      dest: set_user_string_name)

lemma stale_param_handler_name:
  "stale_param_handler optobj value nvalue fl e m = (rc, r', e', m') \<Longrightarrow>
   optname r' = optname optobj \<and> noptname r' = noptname optobj"
  by (auto simp: stale_param_handler_def Let_def split: if_splits prod.splits
      dest: bool_param_handler_name)

lemma onerror_param_handler_name:
  "onerror_param_handler optobj value nvalue fl e m = (rc, r', e', m') \<Longrightarrow>
   optname r' = optname optobj \<and> noptname r' = noptname optobj"
  by (auto simp: onerror_param_handler_def Let_def split: if_splits)

lemma call_handler_name:
  "call_handler h optobj value nvalue fl e m = (rc, r', e', m') \<Longrightarrow>
   optname r' = optname optobj \<and> noptname r' = noptname optobj"
  by (cases h)
    (auto dest: bool_param_handler_name num_param_handler_name string_param_handler_name
      stale_param_handler_name onerror_param_handler_name)

lemma write_single:
  "fst (lcbex_vqstr_write [r]) =
     ''?'' @ memcpy_bytes (bytes_at (optname r)) (noptname r) @ ''='' @
     memcpy_bytes (bytes_at (optval r)) (noptval r)"
  by (simp add: lcbex_vqstr_write_def write_option_def Let_def length_memcpy_bytes)

lemma memcpy_bytes_exact: "memcpy_bytes s (length s) = s"
  by (simp add: memcpy_bytes_def)

lemma strncpy_bytes_strlen: "strncpy_bytes s (strlen s) = cstring s"
  by (simp add: strncpy_bytes_def strlen_def memcpy_bytes_exact)

lemma memcpy_bytes_cstring: "memcpy_bytes (cstring s) (strlen s) = cstring s"
  by (simp add: strlen_def memcpy_bytes_exact)

lemma effective_len_auto: "effective_len SIZE_MAX s = strlen s"
  by (simp add: effective_len_def)

lemma strlen_eq_0: "strlen s = 0 \<longleftrightarrow> cstring s = []"
  by (simp add: strlen_def)

text \<open>
  Names the lookup rejects. Let the option name be a non-empty string that is not a prefix
  of any name of the table, the value a non-empty string or a number, and neither the
  passthrough flag nor the numeric-name flag set, the lengths being taken from the strings.
  Then the assignment fails with \<^verbatim>\<open>LCB_EINVAL\<close> and the error string
  \<^verbatim>\<open>Unrecognized option\<close>, the heap unchanged; and the same call with the passthrough flag
  added succeeds, and the record is serialised with the name as given.
\<close>

lemma non_prefix_option_rejected:
  assumes name: "cstring (str_view option) \<noteq> []"
      and val: "fl AND LCBEX_VOPT_F_OPTVAL_NUMERIC \<noteq> 0 \<or> cstring (str_view value) \<noteq> []"
      and np: "fl AND LCBEX_VOPT_F_PASSTHROUGH = 0"
      and nn: "fl AND LCBEX_VOPT_F_OPTNAME_NUMERIC = 0"
      and nomatch: "\<forall>p\<in>set recognized_view_params. \<not> prefix (cstring (str_view option)) (param p)"
  shows "lcbex_vopt_assign r0 option SIZE_MAX value SIZE_MAX fl e m =
           (LCB_EINVAL, vopt_zero\<lparr>flags := fl\<rparr>, Some ''Unrecognized option'', m) \<and>
         (\<exists>r' e' m'.
            lcbex_vopt_assign r0 option SIZE_MAX value SIZE_MAX (fl OR LCBEX_VOPT_F_PASSTHROUGH) e m =
              (LCB_SUCCESS, r', e', m') \<and>
            fst (lcbex_vqstr_write [r']) =
              ''?'' @ cstring (str_view option) @ ''='' @
              memcpy_bytes (bytes_at (optval r')) (noptval r'))"
proof
  have v: "fl AND LCBEX_VOPT_F_OPTVAL_NUMERIC \<noteq> 0 \<or> effective_len SIZE_MAX (str_view value) \<noteq> 0"
    using val by (simp add: effective_len_auto strlen_eq_0)
  have n: "fl AND LCBEX_VOPT_F_OPTNAME_NUMERIC \<noteq> 0 \<or> effective_len SIZE_MAX (str_view option) \<noteq> 0"
    using name by (simp add: effective_len_auto strlen_eq_0)
  have none: "find_view_param option (strlen (str_view option)) fl = None"
    using find_view_param_None [OF nn] nomatch by simp
  show "lcbex_vopt_assign r0 option SIZE_MAX value SIZE_MAX fl e m =
           (LCB_EINVAL, vopt_zero\<lparr>flags := fl\<rparr>, Some ''Unrecognized option'', m)"
    using assign_lookup [OF v n np, of r0 e m] none by (simp add: effective_len_auto)
next
  let ?fl = "fl OR LCBEX_VOPT_F_PASSTHROUGH"
  let ?m1 = "m\<lparr>live := fresh (live m) # live m\<rparr>"
  let ?nv = "effective_len SIZE_MAX (str_view value)"
  let ?named = "vopt_zero\<lparr>optname := Heap (fresh (live m))
           (strncpy_bytes (str_view option) (effective_len SIZE_MAX (str_view option))),
         noptname := effective_len SIZE_MAX (str_view option)\<rparr>"
  have num: "?fl AND LCBEX_VOPT_F_OPTVAL_NUMERIC \<noteq> 0 \<longleftrightarrow> fl AND LCBEX_VOPT_F_OPTVAL_NUMERIC \<noteq> 0"
    by (simp add: flag_tests flag_sets_more)
  have v: "?fl AND LCBEX_VOPT_F_OPTVAL_NUMERIC \<noteq> 0 \<or> effective_len SIZE_MAX (str_view value) \<noteq> 0"
    using val num by (simp add: effective_len_auto strlen_eq_0)
  have n: "effective_len SIZE_MAX (str_view option) \<noteq> 0"
    using name by (simp add: effective_len_auto strlen_eq_0)
  have nn': "?fl AND LCBEX_VOPT_F_OPTNAME_NUMERIC = 0"
    using nn by (simp add: flag_tests flag_sets_more)
  have p: "?fl AND LCBEX_VOPT_F_PASSTHROUGH \<noteq> 0"
    by (simp add: flag_tests flag_sets_more)
  note eq = assign_passthrough [OF v nn' n p, of r0 e m]
  obtain rc r' e' m' where
    res: "lcbex_vopt_assign r0 option SIZE_MAX value SIZE_MAX ?fl e m = (rc, r', e', m')"
    by (cases "lcbex_vopt_assign r0 option SIZE_MAX value SIZE_MAX ?fl e m")
  have rc: "rc = LCB_SUCCESS"
    using res eq num_param_handler_numeric [of ?fl ?named "value" ?nv e ?m1]
      string_param_handler_string [of ?fl ?named "value" ?nv e ?m1]
    by (auto split: if_splits)
  have nm: "optname r' = optname ?named \<and> noptname r' = noptname ?named"
    using res eq call_handler_name [of num_handler ?named "value" ?nv ?fl e ?m1 rc r' e' m']
      call_handler_name [of string_handler ?named "value" ?nv ?fl e ?m1 rc r' e' m']
    by (simp split: if_splits)
  have "memcpy_bytes (bytes_at (optname r')) (noptname r') = cstring (str_view option)"
    using nm
    by (simp add: effective_len_auto strncpy_bytes_strlen memcpy_bytes_cstring vopt_zero_def)
  then have "fst (lcbex_vqstr_write [r']) =
      ''?'' @ cstring (str_view option) @ ''='' @ memcpy_bytes (bytes_at (optval r')) (noptval r')"
    by (simp add: write_single)
  with res rc show "\<exists>r' e' m'.
      lcbex_vopt_assign r0 option SIZE_MAX value SIZE_MAX ?fl e m = (LCB_SUCCESS, r', e', m') \<and>
      fst (lcbex_vqstr_write [r']) =
        ''?'' @ cstring (str_view option) @ ''='' @
        memcpy_bytes (bytes_at (optval r')) (noptval r')"
    by blast
qed

lemma bob_not_prefix:
  "\<forall>p\<in>set recognized_view_params. \<not> prefix (cstring (str_view (str_arg ''bob''))) (param p)"
  by (simp add: recognized_view_params_def str_arg_def cstring_def NUL_def)

lemma non_prefix_option_rejected_example:
  "lcbex_vopt_assign vopt_zero (str_arg ''bob'') SIZE_MAX (str_arg ''loblaw'') SIZE_MAX 0 None
     mem_empty =
     (LCB_EINVAL, vopt_zero\<lparr>flags := 0\<rparr>, Some ''Unrecognized option'', mem_empty) \<and>
   (\<exists>r' e' m'.
      lcbex_vopt_assign vopt_zero (str_arg ''bob'') SIZE_MAX (str_arg ''loblaw'') SIZE_MAX
        (0 OR LCBEX_VOPT_F_PASSTHROUGH) None mem_empty = (LCB_SUCCESS, r', e', m') \<and>
      fst (lcbex_vqstr_write [r']) =
        ''?'' @ cstring (str_view (str_arg ''bob'')) @ ''='' @
        memcpy_bytes (bytes_at (optval r')) (noptval r'))"
proof -
  have name: "cstring (str_view (str_arg ''bob'')) \<noteq> []"
    by (simp add: str_arg_def cstring_def NUL_def)
  have val: "0 AND LCBEX_VOPT_F_OPTVAL_NUMERIC \<noteq> 0 \<or> cstring (str_view (str_arg ''loblaw'')) \<noteq> []"
    by (simp add: str_arg_def cstring_def NUL_def)
  have np: "0 AND LCBEX_VOPT_F_PASSTHROUGH = 0" by simp
  have nn: "0 AND LCBEX_VOPT_F_OPTNAME_NUMERIC = 0" by simp
  show ?thesis
    by (rule non_prefix_option_rejected [OF name val np nn bob_not_prefix])
qed

text \<open>
  The empty name does not reach the lookup: the test of the lengths, which comes first,
  rejects it with or without the passthrough flag.
\<close>

lemma empty_name_missing_length:
  "lcbex_vopt_assign vopt_zero (str_arg []) SIZE_MAX (str_arg ''value'') SIZE_MAX 0 None mem_empty =
     (LCB_EINVAL, vopt_zero, Some ''Missing option name length'', mem_empty) \<and>
   lcbex_vopt_assign vopt_zero (str_arg []) SIZE_MAX (str_arg ''value'') SIZE_MAX
     LCBEX_VOPT_F_PASSTHROUGH None mem_empty =
     (LCB_EINVAL, vopt_zero, Some ''Missing option name length'', mem_empty)"
  by (simp add: eval_defs)

text \<open>
  Claim C2. An option name that is not one of the names of the table is to be rejected
  with \<^verbatim>\<open>Unrecognized option\<close> unless the passthrough flag is set. The lookup calls
  \<^verbatim>\<open>strncmp\<close> with the length of the name given, so it compares only as many bytes as
  that name has, and a proper prefix of a name of the table is taken for that option:
  \<^verbatim>\<open>desc\<close> is not in the table, and without the passthrough flag its assignment
  succeeds, through the handler of \<^verbatim>\<open>descending\<close>, and the record is serialised with the
  name as given.
\<close>

theorem prefix_of_name_is_recognized:
  "''desc'' \<notin> set (map param recognized_view_params) \<and>
   lcbex_vopt_assign vopt_zero (str_arg ''desc'') SIZE_MAX (str_arg ''true'') SIZE_MAX 0 None
     mem_empty =
   (LCB_SUCCESS,
    \<lparr>optname = Heap 1 ''desc'', optval = Static ''true'', noptname = 4, noptval = 4, flags = 8\<rparr>,
    None, \<lparr>live = [1], faults = 0\<rparr>) \<and>
   fst (lcbex_vqstr_write
     [\<lparr>optname = Heap 1 ''desc'', optval = Static ''true'', noptname = 4, noptval = 4,
        flags = 8\<rparr>]) = ''?desc=true''"
proof (intro conjI)
  show "''desc'' \<notin> set (map param recognized_view_params)"
    by (simp add: recognized_view_params_def)
  show "lcbex_vopt_assign vopt_zero (str_arg ''desc'') SIZE_MAX (str_arg ''true'') SIZE_MAX 0 None
     mem_empty =
   (LCB_SUCCESS,
    \<lparr>optname = Heap 1 ''desc'', optval = Static ''true'', noptname = 4, noptval = 4, flags = 8\<rparr>,
    None, \<lparr>live = [1], faults = 0\<rparr>)"
    by (simp add: eval_defs bool_param_handler_def)
  show "fst (lcbex_vqstr_write
     [\<lparr>optname = Heap 1 ''desc'', optval = Static ''true'', noptname = 4, noptval = 4,
        flags = 8\<rparr>]) = ''?desc=true''"
    by (simp add: write_single memcpy_bytes_def)
qed

subsection \<open>Options given by their canonical name\<close>

lemma find_view_param_table:
  "fl AND LCBEX_VOPT_F_OPTNAME_NUMERIC = 0 \<Longrightarrow>
   \<forall>p\<in>set recognized_view_params.
     \<exists>q. find_view_param (option\<lparr>str_view := param p\<rparr>) (strlen (param p)) fl = Some q \<and>
         handler q = handler p"
  by (simp add: recognized_view_params_def find_view_param_def strlen_def cstring_def NUL_def)

lemma find_view_param_canonical:
  assumes "p \<in> set recognized_view_params" and "str_view option = param p"
      and "fl AND LCBEX_VOPT_F_OPTNAME_NUMERIC = 0"
  shows "\<exists>q. find_view_param option (strlen (param p)) fl = Some q \<and> handler q = handler p"
proof -
  have "option\<lparr>str_view := param p\<rparr> = option"
    using assms(2) by simp
  then show ?thesis
    using find_view_param_table [OF assms(3), of option] assms(1) by (metis (no_types))
qed

lemma strlen_param:
  "p \<in> set recognized_view_params \<Longrightarrow> strlen (param p) = length (param p)"
  by (simp add: strlen_def cstring_param)

lemma named_record_name_bytes:
  assumes p: "p \<in> set recognized_view_params" and name: "str_view option = param p"
      and nn: "fl AND LCBEX_VOPT_F_OPTNAME_NUMERIC = 0"
      and nr: "named_record q option (strlen (param p)) fl m = (optobj, m1)"
  shows "memcpy_bytes (bytes_at (optname optobj)) (noptname optobj) = param p"
proof -
  have "strncpy_bytes (param p) (strlen (param p)) = param p"
    using cstring_param [OF p] by (simp add: strncpy_bytes_strlen)
  moreover have "memcpy_bytes (param p) (strlen (param p)) = param p"
    using strlen_param [OF p] by (simp add: memcpy_bytes_exact)
  ultimately show ?thesis
    using nr nn name
    by (auto simp: named_record_def vopt_zero_def split: if_splits)
qed

lemma assign_canonical:
  assumes p: "p \<in> set recognized_view_params" and name: "str_view option = param p"
      and np: "fl AND LCBEX_VOPT_F_PASSTHROUGH = 0"
      and nn: "fl AND LCBEX_VOPT_F_OPTNAME_NUMERIC = 0"
      and val: "fl AND LCBEX_VOPT_F_OPTVAL_NUMERIC \<noteq> 0 \<or> effective_len nvalue (str_view value) \<noteq> 0"
  shows "\<exists>optobj m1.
           lcbex_vopt_assign r0 option SIZE_MAX value nvalue fl e m =
             call_handler (handler p) optobj value (effective_len nvalue (str_view value)) fl e m1 \<and>
           memcpy_bytes (bytes_at (optname optobj)) (noptname optobj) = param p \<and>
           optval optobj = Null \<and> noptval optobj = 0"
proof -
  have len: "effective_len SIZE_MAX (str_view option) = strlen (param p)"
    using name by (simp add: effective_len_auto)
  have "param p \<noteq> []"
    using p by (auto simp: recognized_view_params_def)
  then have n: "fl AND LCBEX_VOPT_F_OPTNAME_NUMERIC \<noteq> 0 \<or> effective_len SIZE_MAX (str_view option) \<noteq> 0"
    using len strlen_param [OF p] by simp
  obtain q where q: "find_view_param option (strlen (param p)) fl = Some q"
    and h: "handler q = handler p"
    using find_view_param_canonical [OF p name nn] by blast
  obtain optobj m1 where nr: "named_record q option (strlen (param p)) fl m = (optobj, m1)"
    by (cases "named_record q option (strlen (param p)) fl m")
  have "lcbex_vopt_assign r0 option SIZE_MAX value nvalue fl e m =
      call_handler (handler p) optobj value (effective_len nvalue (str_view value)) fl e m1"
    using assign_lookup [OF val n np, of r0 e m] q h nr len by simp
  moreover note named_record_name_bytes [OF p name nn nr]
  moreover have "optval optobj = Null \<and> noptval optobj = 0"
    using named_record_value [OF nr] by simp
  ultimately show ?thesis by blast
qed

subsection \<open>Boolean options and the stale option\<close>

text \<open>
  The inputs the tests of the repository use for a boolean option and for \<^verbatim>\<open>stale\<close>.
\<close>

lemma bool_option_examples:
  "fst (lcbex_vqstr_write [fst (snd (lcbex_vopt_assign vopt_zero (str_arg ''descending'') SIZE_MAX
      (str_arg ''true'') SIZE_MAX 0 None mem_empty))]) = ''?descending=true''"
  "fst (lcbex_vqstr_write [fst (snd (lcbex_vopt_assign vopt_zero (str_arg ''descending'') SIZE_MAX
      (str_arg ''TrUe'') SIZE_MAX 0 None mem_empty))]) = ''?descending=true''"
  "fst (lcbex_vqstr_write [fst (snd (lcbex_vopt_assign vopt_zero (str_arg ''descending'') SIZE_MAX
      (str_arg ''false'') SIZE_MAX 0 None mem_empty))]) = ''?descending=false''"
  "fst (lcbex_vqstr_write [fst (snd (lcbex_vopt_assign vopt_zero (str_arg ''descending'') 10
      (int_arg 1 []) 0 LCBEX_VOPT_F_OPTVAL_NUMERIC None mem_empty))]) = ''?descending=true''"
  "fst (lcbex_vqstr_write [fst (snd (lcbex_vopt_assign vopt_zero (str_arg ''descending'') 10
      (int_arg 0 []) 0 LCBEX_VOPT_F_OPTVAL_NUMERIC None mem_empty))]) = ''?descending=false''"
  "fst (lcbex_vopt_assign vopt_zero (str_arg ''descending'') SIZE_MAX
      (str_arg ''bad_value'') SIZE_MAX 0 None mem_empty) = LCB_EINVAL"
  by (simp_all add: eval_defs bool_param_handler_def write_single)

lemma stale_option_examples:
  "fst (lcbex_vqstr_write [fst (snd (lcbex_vopt_assign vopt_zero (str_arg ''stale'') SIZE_MAX
      (str_arg ''false'') SIZE_MAX 0 None mem_empty))]) = ''?stale=false''"
  "fst (lcbex_vqstr_write [fst (snd (lcbex_vopt_assign vopt_zero (str_arg ''stale'') SIZE_MAX
      (str_arg ''ok'') SIZE_MAX 0 None mem_empty))]) = ''?stale=ok''"
  "fst (lcbex_vqstr_write [fst (snd (lcbex_vopt_assign vopt_zero (str_arg ''stale'') SIZE_MAX
      (str_arg ''update_after'') SIZE_MAX 0 None mem_empty))]) = ''?stale=update_after''"
  "fst (lcbex_vqstr_write [fst (snd (lcbex_vopt_assign vopt_zero (str_arg ''stale'') SIZE_MAX
      (str_arg ''true'') SIZE_MAX 0 None mem_empty))]) = ''?stale=ok''"
  "fst (lcbex_vqstr_write [fst (snd (lcbex_vopt_assign vopt_zero (str_arg ''stale'') 5
      (int_arg 1 []) 0 LCBEX_VOPT_F_OPTVAL_NUMERIC None mem_empty))]) = ''?stale=ok''"
  "fst (lcbex_vqstr_write [fst (snd (lcbex_vopt_assign vopt_zero (str_arg ''stale'') 5
      (int_arg 0 []) 0 LCBEX_VOPT_F_OPTVAL_NUMERIC None mem_empty))]) = ''?stale=false''"
  "fst (lcbex_vopt_assign vopt_zero (str_arg ''stale'') SIZE_MAX
      (str_arg ''invalid'') SIZE_MAX 0 None mem_empty) = LCB_EINVAL"
  by (simp_all add: eval_defs bool_param_handler_def stale_param_handler_def write_single cbyte_def)

text \<open>
  Claim C3 says that a boolean option rejects every string other than \<^verbatim>\<open>true\<close> and
  \<^verbatim>\<open>false\<close>. The handler compares with \<^verbatim>\<open>strncasecmp\<close> bounded by the length of the
  value, so the value \<^verbatim>\<open>t\<close> is accepted and stored as \<^verbatim>\<open>true\<close>.
\<close>

theorem bool_option_accepts_prefix:
  "lcbex_vopt_assign vopt_zero (str_arg ''descending'') SIZE_MAX (str_arg ''t'') SIZE_MAX 0 None
     mem_empty =
   (LCB_SUCCESS,
    \<lparr>optname = Heap 1 ''descending'', optval = Static ''true'', noptname = 10, noptval = 4,
       flags = 8\<rparr>,
    None, \<lparr>live = [1], faults = 0\<rparr>)"
  by (simp add: eval_defs bool_param_handler_def)

text \<open>
  Claim C5 says that \<^verbatim>\<open>stale\<close> rejects every string other than \<^verbatim>\<open>false\<close>, \<^verbatim>\<open>ok\<close>,
  \<^verbatim>\<open>update_after\<close> and \<^verbatim>\<open>true\<close>. The comparisons are bounded by the length of the
  value, so the value \<^verbatim>\<open>update\<close> is accepted and stored as \<^verbatim>\<open>update_after\<close>.
\<close>

theorem stale_option_accepts_prefix:
  "lcbex_vopt_assign vopt_zero (str_arg ''stale'') SIZE_MAX (str_arg ''update'') SIZE_MAX 0 None
     mem_empty =
   (LCB_SUCCESS,
    \<lparr>optname = Heap 1 ''stale'', optval = Static ''update_after'', noptname = 5, noptval = 12,
       flags = 8\<rparr>,
    Some (''String must be either '' @ quoted ''true'' @ '' or '' @ quoted ''false''),
    \<lparr>live = [1], faults = 0\<rparr>)"
  by (simp add: eval_defs bool_param_handler_def stale_param_handler_def)

subsection \<open>Numeric options\<close>

lemma nth_memcpy_bytes: "i < n \<Longrightarrow> memcpy_bytes s n ! i = cbyte s i"
  by (simp add: memcpy_bytes_def cbyte_def nth_append)

lemma digits_from_iff:
  "digits_from istr ii nvalue \<longleftrightarrow> (\<forall>i. ii \<le> i \<and> i < nvalue \<longrightarrow> isdigit (cbyte istr i))"
proof (induction istr ii nvalue rule: digits_from.induct)
  case (1 istr ii nvalue)
  show ?case
  proof (cases "ii < nvalue")
    case False
    then show ?thesis by (auto simp: digits_from.simps [of istr ii nvalue])
  next
    case lt: True
    show ?thesis
    proof (cases "isdigit (cbyte istr ii)")
      case False
      then show ?thesis
        using lt by (auto simp: digits_from.simps [of istr ii nvalue])
    next
      case True
      have "digits_from istr ii nvalue = digits_from istr (Suc ii) nvalue"
        using lt True by (simp add: digits_from.simps [of istr ii nvalue])
      also have "\<dots> \<longleftrightarrow> (\<forall>i. Suc ii \<le> i \<and> i < nvalue \<longrightarrow> isdigit (cbyte istr i))"
        using 1 lt True by simp
      also have "\<dots> \<longleftrightarrow> (\<forall>i. ii \<le> i \<and> i < nvalue \<longrightarrow> isdigit (cbyte istr i))"
        using True by (metis Suc_leI le_neq_implies_less Suc_leD)
      finally show ?thesis .
    qed
  qed
qed

lemma list_all_tl_iff:
  "list_all P (tl xs) \<longleftrightarrow> (\<forall>i. 1 \<le> i \<and> i < length xs \<longrightarrow> P (xs ! i))"
proof (cases xs)
  case Nil
  then show ?thesis by simp
next
  case (Cons x ys)
  have "(\<forall>i. 1 \<le> i \<and> i < Suc (length ys) \<longrightarrow> P ((x # ys) ! i)) \<longleftrightarrow> (\<forall>j < length ys. P (ys ! j))"
  proof
    assume h: "\<forall>i. 1 \<le> i \<and> i < Suc (length ys) \<longrightarrow> P ((x # ys) ! i)"
    show "\<forall>j < length ys. P (ys ! j)"
    proof (intro allI impI)
      fix j assume "j < length ys"
      then show "P (ys ! j)" using h [rule_format, of "Suc j"] by simp
    qed
  next
    assume h: "\<forall>j < length ys. P (ys ! j)"
    show "\<forall>i. 1 \<le> i \<and> i < Suc (length ys) \<longrightarrow> P ((x # ys) ! i)"
    proof (intro allI impI)
      fix i assume "1 \<le> i \<and> i < Suc (length ys)"
      then obtain j where "i = Suc j" "j < length ys" by (cases i) auto
      then show "P ((x # ys) ! i)" using h by simp
    qed
  qed
  then show ?thesis using Cons by (simp add: list_all_length)
qed

lemma isdigit_minus: "\<not> isdigit CHR ''-''"
  by (simp add: isdigit_def)

lemma signed_digits_memcpy:
  assumes "n \<noteq> 0"
  shows "signed_digits (memcpy_bytes s n) \<longleftrightarrow>
    (isdigit (cbyte s 0) \<or> cbyte s 0 = CHR ''-'') \<and> digits_from s 1 n"
proof -
  let ?xs = "memcpy_bytes s n"
  have len: "length ?xs = n" by (rule length_memcpy_bytes)
  then have ne: "?xs \<noteq> []" using assms by auto
  have hd: "hd ?xs = cbyte s 0"
    using nth_memcpy_bytes [of 0 n s] assms ne by (simp add: hd_conv_nth)
  have tl: "list_all isdigit (tl ?xs) \<longleftrightarrow> digits_from s 1 n"
    using nth_memcpy_bytes [of _ n s] by (simp add: list_all_tl_iff len digits_from_iff)
  have all: "list_all isdigit ?xs \<longleftrightarrow> isdigit (hd ?xs) \<and> list_all isdigit (tl ?xs)"
    using ne by (cases ?xs) auto
  show ?thesis
    using ne hd tl all isdigit_minus by (auto simp: signed_digits_def)
qed

lemma isdigit_NUL: "\<not> isdigit NUL"
  by (simp add: isdigit_def NUL_def)

lemma signed_digits_no_NUL:
  assumes "signed_digits xs"
  shows "NUL \<notin> set xs"
proof
  assume n: "NUL \<in> set xs"
  obtain x ys where xs: "xs = x # ys"
    using assms by (cases xs) (auto simp: signed_digits_def)
  show False
  proof (cases "x = CHR ''-''")
    case True
    then have "list_all isdigit ys" and "NUL \<in> set ys"
      using assms n xs by (auto simp: signed_digits_def NUL_def)
    then show False using isdigit_NUL by (auto simp: list_all_iff)
  next
    case False
    then have "list_all isdigit xs"
      using assms xs by (auto simp: signed_digits_def)
    then show False using n isdigit_NUL by (auto simp: list_all_iff)
  qed
qed

lemma memcpy_bytes_no_NUL:
  assumes "NUL \<notin> set (memcpy_bytes s n)"
  shows "n \<le> length s" and "NUL \<notin> set (take n s)"
proof -
  show "n \<le> length s"
  proof (rule ccontr)
    assume "\<not> n \<le> length s"
    then have "NUL \<in> set (replicate (n - length s) NUL)" by simp
    then show False using assms by (simp add: memcpy_bytes_def)
  qed
  show "NUL \<notin> set (take n s)"
    using assms by (simp add: memcpy_bytes_def)
qed

lemma strncpy_bytes_no_NUL:
  assumes "NUL \<notin> set (memcpy_bytes s n)"
  shows "strncpy_bytes s n = memcpy_bytes s n"
proof -
  note le = memcpy_bytes_no_NUL(1) [OF assms] and nn = memcpy_bytes_no_NUL(2) [OF assms]
  have "cstring (take n s @ drop n s) = take n s @ cstring (drop n s)"
    unfolding cstring_def using nn by (intro takeWhile_append2) auto
  then have c: "cstring s = take n s @ cstring (drop n s)" by simp
  have "take n (cstring s) = take n s"
    using le by (simp add: c)
  moreover have "n \<le> length (cstring s)"
    using le by (simp add: c)
  ultimately show ?thesis
    using le by (simp add: strncpy_bytes_def memcpy_bytes_def)
qed

lemma memcpy_bytes_memcpy_bytes: "memcpy_bytes (memcpy_bytes s n) n = memcpy_bytes s n"
  using memcpy_bytes_exact [of "memcpy_bytes s n"] by (simp add: length_memcpy_bytes)

lemma set_user_string_value_bytes:
  assumes "NUL \<notin> set (memcpy_bytes (str_view value) n)"
      and "set_user_string optobj value n fl m = (r', m')"
  shows "memcpy_bytes (bytes_at (optval r')) (noptval r') = memcpy_bytes (str_view value) n"
  using assms(2) strncpy_bytes_no_NUL [OF assms(1)]
  by (auto simp: set_user_string_def my_strndup_def malloc_def Let_def memcpy_bytes_memcpy_bytes
      split: if_splits)

lemma effective_len_idem: "effective_len (effective_len n s) s = effective_len n s"
  by (simp add: effective_len_def)

lemma num_param_handler_accepts:
  assumes "fl AND LCBEX_VOPT_F_OPTVAL_NUMERIC = 0"
      and "signed_digits (memcpy_bytes (str_view value) (effective_len nvalue (str_view value)))"
  shows "num_param_handler optobj value nvalue fl e m =
     (case set_user_string optobj value (effective_len nvalue (str_view value)) fl m of
        (r', m') \<Rightarrow> (LCB_SUCCESS, r', e, m'))"
proof -
  let ?n = "effective_len nvalue (str_view value)"
  have "memcpy_bytes (str_view value) ?n \<noteq> []"
    using assms(2) by (simp add: signed_digits_def)
  then have "length (memcpy_bytes (str_view value) ?n) \<noteq> 0"
    by simp
  then have n0: "?n \<noteq> 0"
    unfolding length_memcpy_bytes .
  show ?thesis
    using assms n0 signed_digits_memcpy [OF n0, of "str_view value"]
    by (auto simp: num_param_handler_def Let_def effective_len_def split: prod.splits)
qed

lemma num_param_handler_rejects:
  assumes "fl AND LCBEX_VOPT_F_OPTVAL_NUMERIC = 0"
      and "\<not> signed_digits (memcpy_bytes (str_view value) (effective_len nvalue (str_view value)))"
  shows "fst (num_param_handler optobj value nvalue fl e m) = LCB_EINVAL"
proof (cases "effective_len nvalue (str_view value) = 0")
  case True
  then show ?thesis
    using assms(1) by (auto simp: num_param_handler_def Let_def effective_len_def)
next
  case n0: False
  show ?thesis
    using assms n0 signed_digits_memcpy [OF n0, of "str_view value"]
    by (auto simp: num_param_handler_def Let_def effective_len_def split: prod.splits)
qed

lemma digit_cases: "d < 10 \<Longrightarrow> d \<in> {0, 1, 2, 3, 4, 5, 6, 7, 8, 9::nat}"
  by auto

lemma isdigit_digit_char: "d < 10 \<Longrightarrow> isdigit (digit_char d)"
  by (drule digit_cases) (auto simp: digit_char_def isdigit_def)

lemma digit_value_digit_char: "d < 10 \<Longrightarrow> digit_value (digit_char d) = d"
  by (drule digit_cases) (auto simp: digit_char_def digit_value_def)

lemma dec_digits_all_digits: "list_all isdigit (dec_digits n)"
proof (induction n rule: dec_digits.induct)
  case (1 n)
  show ?case
  proof (cases "n < 10")
    case True
    then show ?thesis by (simp add: dec_digits.simps [of n] isdigit_digit_char)
  next
    case False
    then show ?thesis
      using 1 by (simp add: dec_digits.simps [of n] isdigit_digit_char)
  qed
qed

lemma dec_digits_not_Nil: "dec_digits n \<noteq> []"
  by (simp add: dec_digits.simps [of n])

lemma decimal_nat_snoc: "decimal_nat (s @ [c]) = 10 * decimal_nat s + digit_value c"
  by (simp add: decimal_nat_def)

lemma decimal_nat_dec_digits: "decimal_nat (dec_digits n) = n"
proof (induction n rule: dec_digits.induct)
  case (1 n)
  show ?case
  proof (cases "n < 10")
    case True
    then show ?thesis
      by (simp add: dec_digits.simps [of n] decimal_nat_def digit_value_digit_char)
  next
    case False
    then have "decimal_nat (dec_digits n) = 10 * (n div 10) + n mod 10"
      using 1 by (simp add: dec_digits.simps [of n] decimal_nat_snoc digit_value_digit_char)
    then show ?thesis by simp
  qed
qed

lemma length_dec_digits: "0 < k \<Longrightarrow> n < 10 ^ k \<Longrightarrow> length (dec_digits n) \<le> k"
proof (induction n arbitrary: k rule: dec_digits.induct)
  case (1 n)
  show ?case
  proof (cases "n < 10")
    case True
    then show ?thesis using "1.prems" by (simp add: dec_digits.simps [of n])
  next
    case False
    then obtain j where k: "k = Suc j"
      using "1.prems" by (cases k) auto
    have j: "0 < j"
      using False "1.prems" k by (cases j) auto
    have "n div 10 < 10 ^ j"
      using "1.prems" k by (simp add: less_mult_imp_div_less mult.commute)
    then have "length (dec_digits (n div 10)) \<le> j"
      using "1.IH" [OF False j] by simp
    then show ?thesis
      using False k by (simp add: dec_digits.simps [of n])
  qed
qed

lemma hd_dec_digits_not_minus: "hd (dec_digits n) \<noteq> CHR ''-''"
proof -
  have "isdigit (hd (dec_digits n))"
    using dec_digits_all_digits [of n] dec_digits_not_Nil [of n]
    by (cases "dec_digits n") auto
  then show ?thesis using isdigit_minus by auto
qed

lemma signed_digits_printf_d: "signed_digits (printf_d i)"
  using dec_digits_all_digits dec_digits_not_Nil hd_dec_digits_not_minus
  by (simp add: printf_d_def signed_digits_def)

lemma decimal_int_printf_d: "decimal_int (printf_d i) = i"
  using hd_dec_digits_not_minus
  by (simp add: printf_d_def decimal_int_def decimal_nat_dec_digits)

lemma length_printf_d_sint: "length (printf_d (sint (w :: 32 word))) \<le> 11"
proof -
  have lo: "- (2 ^ 31) \<le> sint w" using sint_ge [of w] by simp
  have hi: "sint w < 2 ^ 31" using sint_lt [of w] by simp
  show ?thesis
  proof (cases "sint w < 0")
    case True
    have "nat (- sint w) < 10 ^ 10" using lo by simp
    then have "length (dec_digits (nat (- sint w))) \<le> 10"
      by (intro length_dec_digits) simp_all
    then show ?thesis using True by (simp add: printf_d_def)
  next
    case False
    have "nat (sint w) < 10 ^ 10" using hi by simp
    then have "length (dec_digits (nat (sint w))) \<le> 10"
      by (intro length_dec_digits) simp_all
    then show ?thesis using False by (simp add: printf_d_def)
  qed
qed

lemma num_param_handler_number:
  assumes "fl AND LCBEX_VOPT_F_OPTVAL_NUMERIC \<noteq> 0"
  shows "\<exists>r' m'. num_param_handler optobj value nvalue fl e m = (LCB_SUCCESS, r', e, m') \<and>
           memcpy_bytes (bytes_at (optval r')) (noptval r') = printf_d (sint (int_view value))"
proof -
  have "take 127 (printf_d (sint (int_view value))) = printf_d (sint (int_view value))"
    using length_printf_d_sint [of "int_view value"] by simp
  then show ?thesis
    using assms
    by (simp add: num_param_handler_def Let_def memcpy_bytes_exact split: prod.splits)
qed

lemma assign_numeric_option_number:
  assumes p: "p \<in> set recognized_view_params" and h: "handler p = num_handler"
      and name: "str_view option = param p"
      and np: "fl AND LCBEX_VOPT_F_PASSTHROUGH = 0"
      and nn: "fl AND LCBEX_VOPT_F_OPTNAME_NUMERIC = 0"
      and num: "fl AND LCBEX_VOPT_F_OPTVAL_NUMERIC \<noteq> 0"
  shows "\<exists>r' e' m'.
           lcbex_vopt_assign r0 option SIZE_MAX value nvalue fl e m = (LCB_SUCCESS, r', e', m') \<and>
           fst (lcbex_vqstr_write [r']) =
             ''?'' @ param p @ ''='' @ printf_d (sint (int_view value))"
proof -
  let ?nv = "effective_len nvalue (str_view value)"
  have val: "fl AND LCBEX_VOPT_F_OPTVAL_NUMERIC \<noteq> 0 \<or> ?nv \<noteq> 0"
    using num by simp
  obtain optobj m1 where
    a: "lcbex_vopt_assign r0 option SIZE_MAX value nvalue fl e m =
          call_handler (handler p) optobj value ?nv fl e m1"
    and nb: "memcpy_bytes (bytes_at (optname optobj)) (noptname optobj) = param p"
    using assign_canonical [OF p name np nn val, of r0 e m] by blast
  obtain r' m' where
    r: "num_param_handler optobj value ?nv fl e m1 = (LCB_SUCCESS, r', e, m')"
    and vb: "memcpy_bytes (bytes_at (optval r')) (noptval r') = printf_d (sint (int_view value))"
    using num_param_handler_number [OF num, of optobj "value" ?nv e m1] by blast
  have "optname r' = optname optobj \<and> noptname r' = noptname optobj"
    by (rule num_param_handler_name [OF r])
  then have "fst (lcbex_vqstr_write [r']) =
      ''?'' @ param p @ ''='' @ printf_d (sint (int_view value))"
    using nb vb by (simp add: write_single)
  moreover have "lcbex_vopt_assign r0 option SIZE_MAX value nvalue fl e m = (LCB_SUCCESS, r', e, m')"
    using a h r by simp
  ultimately show ?thesis by blast
qed

lemma assign_numeric_option_string:
  assumes p: "p \<in> set recognized_view_params" and h: "handler p = num_handler"
      and name: "str_view option = param p"
      and np: "fl AND LCBEX_VOPT_F_PASSTHROUGH = 0"
      and nn: "fl AND LCBEX_VOPT_F_OPTNAME_NUMERIC = 0"
      and str: "fl AND LCBEX_VOPT_F_OPTVAL_NUMERIC = 0"
      and sd: "signed_digits (memcpy_bytes (str_view value) (effective_len nvalue (str_view value)))"
  shows "\<exists>r' e' m'.
           lcbex_vopt_assign r0 option SIZE_MAX value nvalue fl e m = (LCB_SUCCESS, r', e', m') \<and>
           fst (lcbex_vqstr_write [r']) =
             ''?'' @ param p @ ''='' @
             memcpy_bytes (str_view value) (effective_len nvalue (str_view value))"
proof -
  let ?nv = "effective_len nvalue (str_view value)"
  have "memcpy_bytes (str_view value) ?nv \<noteq> []"
    using sd by (simp add: signed_digits_def)
  then have "length (memcpy_bytes (str_view value) ?nv) \<noteq> 0" by simp
  then have n0: "?nv \<noteq> 0" unfolding length_memcpy_bytes .
  then have val: "fl AND LCBEX_VOPT_F_OPTVAL_NUMERIC \<noteq> 0 \<or> ?nv \<noteq> 0" by simp
  obtain optobj m1 where
    a: "lcbex_vopt_assign r0 option SIZE_MAX value nvalue fl e m =
          call_handler (handler p) optobj value ?nv fl e m1"
    and nb: "memcpy_bytes (bytes_at (optname optobj)) (noptname optobj) = param p"
    using assign_canonical [OF p name np nn val, of r0 e m] by blast
  have sd': "signed_digits (memcpy_bytes (str_view value) (effective_len ?nv (str_view value)))"
    using sd by (simp add: effective_len_idem)
  obtain r' m' where su: "set_user_string optobj value ?nv fl m1 = (r', m')"
    by (cases "set_user_string optobj value ?nv fl m1")
  have r: "num_param_handler optobj value ?nv fl e m1 = (LCB_SUCCESS, r', e, m')"
    using num_param_handler_accepts [OF str sd', of optobj e m1] su
    by (simp add: effective_len_idem)
  have vb: "memcpy_bytes (bytes_at (optval r')) (noptval r') = memcpy_bytes (str_view value) ?nv"
    by (rule set_user_string_value_bytes [OF signed_digits_no_NUL [OF sd] su])
  have "optname r' = optname optobj \<and> noptname r' = noptname optobj"
    by (rule num_param_handler_name [OF r])
  then have "fst (lcbex_vqstr_write [r']) =
      ''?'' @ param p @ ''='' @ memcpy_bytes (str_view value) ?nv"
    using nb vb by (simp add: write_single)
  moreover have "lcbex_vopt_assign r0 option SIZE_MAX value nvalue fl e m = (LCB_SUCCESS, r', e, m')"
    using a h r by simp
  ultimately show ?thesis by blast
qed

lemma assign_numeric_option_rejects:
  assumes p: "p \<in> set recognized_view_params" and h: "handler p = num_handler"
      and name: "str_view option = param p"
      and np: "fl AND LCBEX_VOPT_F_PASSTHROUGH = 0"
      and nn: "fl AND LCBEX_VOPT_F_OPTNAME_NUMERIC = 0"
      and str: "fl AND LCBEX_VOPT_F_OPTVAL_NUMERIC = 0"
      and sd: "\<not> signed_digits (memcpy_bytes (str_view value) (effective_len nvalue (str_view value)))"
  shows "fst (lcbex_vopt_assign r0 option SIZE_MAX value nvalue fl e m) = LCB_EINVAL"
proof (cases "effective_len nvalue (str_view value) = 0")
  case True
  show ?thesis
    using assign_missing_value [OF str True, of r0 option SIZE_MAX e m] by simp
next
  case False
  let ?nv = "effective_len nvalue (str_view value)"
  have val: "fl AND LCBEX_VOPT_F_OPTVAL_NUMERIC \<noteq> 0 \<or> ?nv \<noteq> 0"
    using False by simp
  obtain optobj m1 where
    a: "lcbex_vopt_assign r0 option SIZE_MAX value nvalue fl e m =
          call_handler (handler p) optobj value ?nv fl e m1"
    using assign_canonical [OF p name np nn val, of r0 e m] by blast
  have sd': "\<not> signed_digits (memcpy_bytes (str_view value) (effective_len ?nv (str_view value)))"
    using sd by (simp add: effective_len_idem)
  show ?thesis
    using a h num_param_handler_rejects [OF str sd', of optobj e m1] by simp
qed

lemma cstring_no_NUL: "NUL \<notin> set s \<Longrightarrow> cstring s = s"
  by (auto simp: cstring_def)

lemma slice_printf_d:
  "memcpy_bytes (printf_d i) (effective_len SIZE_MAX (printf_d i)) = printf_d i"
  using cstring_no_NUL [OF signed_digits_no_NUL [OF signed_digits_printf_d [of i]]]
  by (simp add: effective_len_auto strlen_def memcpy_bytes_exact)

text \<open>
  Claim C4. For an option of the table whose handler is the numeric one, given by its
  canonical name: a numeric value is stored as its decimal string (the output of
  \<^verbatim>\<open>%d\<close>, which denotes the value); a string value, that is the bytes the value length
  selects, is accepted if and only if it is non-empty and an optional \<^verbatim>\<open>-\<close> followed only by
  digits, and is then serialised as given, and is otherwise rejected with \<^verbatim>\<open>LCB_EINVAL\<close>;
  and an integer and its decimal string are serialised identically.
\<close>

theorem numeric_option:
  assumes p: "p \<in> set recognized_view_params" and h: "handler p = num_handler"
      and name: "str_view option = param p"
      and npN: "flN AND LCBEX_VOPT_F_PASSTHROUGH = 0"
      and nnN: "flN AND LCBEX_VOPT_F_OPTNAME_NUMERIC = 0"
      and num: "flN AND LCBEX_VOPT_F_OPTVAL_NUMERIC \<noteq> 0"
      and npS: "flS AND LCBEX_VOPT_F_PASSTHROUGH = 0"
      and nnS: "flS AND LCBEX_VOPT_F_OPTNAME_NUMERIC = 0"
      and str: "flS AND LCBEX_VOPT_F_OPTVAL_NUMERIC = 0"
  shows
    "(\<exists>r' e' m'.
        lcbex_vopt_assign r0 option SIZE_MAX vN nN flN e m = (LCB_SUCCESS, r', e', m') \<and>
        fst (lcbex_vqstr_write [r']) = ''?'' @ param p @ ''='' @ printf_d (sint (int_view vN))) \<and>
     decimal_int (printf_d (sint (int_view vN))) = sint (int_view vN) \<and>
     (if signed_digits (memcpy_bytes (str_view vS) (effective_len nS (str_view vS)))
      then \<exists>r' e' m'.
        lcbex_vopt_assign r0 option SIZE_MAX vS nS flS e m = (LCB_SUCCESS, r', e', m') \<and>
        fst (lcbex_vqstr_write [r']) =
          ''?'' @ param p @ ''='' @ memcpy_bytes (str_view vS) (effective_len nS (str_view vS))
      else fst (lcbex_vopt_assign r0 option SIZE_MAX vS nS flS e m) = LCB_EINVAL) \<and>
     (str_view vS = printf_d (sint (int_view vN)) \<longrightarrow>
        fst (lcbex_vqstr_write [fst (snd (lcbex_vopt_assign r0 option SIZE_MAX vS SIZE_MAX flS e m))]) =
        fst (lcbex_vqstr_write [fst (snd (lcbex_vopt_assign r0 option SIZE_MAX vN nN flN e m))]))"
proof (intro conjI)
  note N = assign_numeric_option_number [OF p h name npN nnN num, of r0 vN nN e m]
  show "\<exists>r' e' m'.
        lcbex_vopt_assign r0 option SIZE_MAX vN nN flN e m = (LCB_SUCCESS, r', e', m') \<and>
        fst (lcbex_vqstr_write [r']) = ''?'' @ param p @ ''='' @ printf_d (sint (int_view vN))"
    by (rule N)
  show "decimal_int (printf_d (sint (int_view vN))) = sint (int_view vN)"
    by (rule decimal_int_printf_d)
  show "if signed_digits (memcpy_bytes (str_view vS) (effective_len nS (str_view vS)))
      then \<exists>r' e' m'.
        lcbex_vopt_assign r0 option SIZE_MAX vS nS flS e m = (LCB_SUCCESS, r', e', m') \<and>
        fst (lcbex_vqstr_write [r']) =
          ''?'' @ param p @ ''='' @ memcpy_bytes (str_view vS) (effective_len nS (str_view vS))
      else fst (lcbex_vopt_assign r0 option SIZE_MAX vS nS flS e m) = LCB_EINVAL"
    using assign_numeric_option_string [OF p h name npS nnS str, of vS nS r0 e m]
      assign_numeric_option_rejects [OF p h name npS nnS str, of vS nS r0 e m]
    by (simp split: if_splits)
  show "str_view vS = printf_d (sint (int_view vN)) \<longrightarrow>
        fst (lcbex_vqstr_write [fst (snd (lcbex_vopt_assign r0 option SIZE_MAX vS SIZE_MAX flS e m))]) =
        fst (lcbex_vqstr_write [fst (snd (lcbex_vopt_assign r0 option SIZE_MAX vN nN flN e m))])"
  proof
    assume eq: "str_view vS = printf_d (sint (int_view vN))"
    have sl: "memcpy_bytes (str_view vS) (effective_len SIZE_MAX (str_view vS)) =
        printf_d (sint (int_view vN))"
      using eq slice_printf_d by simp
    then have "signed_digits (memcpy_bytes (str_view vS) (effective_len SIZE_MAX (str_view vS)))"
      using signed_digits_printf_d by simp
    from assign_numeric_option_string [OF p h name npS nnS str this, of r0 e m] sl
    obtain r' e' m' where
      "lcbex_vopt_assign r0 option SIZE_MAX vS SIZE_MAX flS e m = (LCB_SUCCESS, r', e', m')"
      "fst (lcbex_vqstr_write [r']) = ''?'' @ param p @ ''='' @ printf_d (sint (int_view vN))"
      by auto
    moreover from N obtain r'' e'' m'' where
      "lcbex_vopt_assign r0 option SIZE_MAX vN nN flN e m = (LCB_SUCCESS, r'', e'', m'')"
      "fst (lcbex_vqstr_write [r'']) = ''?'' @ param p @ ''='' @ printf_d (sint (int_view vN))"
      by auto
    ultimately show "fst (lcbex_vqstr_write [fst (snd (lcbex_vopt_assign r0 option SIZE_MAX vS SIZE_MAX flS e m))]) =
        fst (lcbex_vqstr_write [fst (snd (lcbex_vopt_assign r0 option SIZE_MAX vN nN flN e m))])"
      by simp
  qed
qed

lemma printf_d_100: "printf_d (sint (int_view (int_arg 100 []))) = ''100''"
  by (simp add: printf_d_def int_arg_def dec_digits.simps [of 100] dec_digits.simps [of 10]
      dec_digits.simps [of 1] dec_digits.simps [of "Suc 0"] digit_char_def)

lemma limit_in_table:
  "\<lparr>itype = 14, param = ''limit'', handler = num_handler\<rparr> \<in> set recognized_view_params"
  by (simp add: recognized_view_params_def)

theorem numeric_option_witness:
  "(\<exists>r' e' m'.
      lcbex_vopt_assign vopt_zero (str_arg ''limit'') SIZE_MAX (int_arg 100 []) 0
        LCBEX_VOPT_F_OPTVAL_NUMERIC None mem_empty = (LCB_SUCCESS, r', e', m') \<and>
      fst (lcbex_vqstr_write [r']) = ''?limit=100'') \<and>
   (\<exists>r' e' m'.
      lcbex_vopt_assign vopt_zero (str_arg ''limit'') SIZE_MAX (str_arg ''100'') SIZE_MAX
        0 None mem_empty = (LCB_SUCCESS, r', e', m') \<and>
      fst (lcbex_vqstr_write [r']) = ''?limit=100'')"
proof -
  let ?p = "\<lparr>itype = 14, param = ''limit'', handler = num_handler\<rparr>"
  have h: "handler ?p = num_handler" by simp
  have name: "str_view (str_arg ''limit'') = param ?p" by (simp add: str_arg_def)
  have fN: "LCBEX_VOPT_F_OPTVAL_NUMERIC AND LCBEX_VOPT_F_PASSTHROUGH = 0"
    "LCBEX_VOPT_F_OPTVAL_NUMERIC AND LCBEX_VOPT_F_OPTNAME_NUMERIC = 0"
    "LCBEX_VOPT_F_OPTVAL_NUMERIC AND LCBEX_VOPT_F_OPTVAL_NUMERIC \<noteq> 0"
    by (simp_all add: LCBEX_VOPT_F_OPTVAL_NUMERIC_def LCBEX_VOPT_F_PASSTHROUGH_def
        LCBEX_VOPT_F_OPTNAME_NUMERIC_def)
  have fS: "0 AND LCBEX_VOPT_F_PASSTHROUGH = 0" "0 AND LCBEX_VOPT_F_OPTNAME_NUMERIC = 0"
    "0 AND LCBEX_VOPT_F_OPTVAL_NUMERIC = 0"
    by simp_all
  have sl: "memcpy_bytes (str_view (str_arg ''100'')) (effective_len SIZE_MAX (str_view (str_arg ''100''))) = ''100''"
    by (simp add: str_arg_def effective_len_auto strlen_def cstring_def NUL_def memcpy_bytes_def)
  have sd: "signed_digits ''100''"
    by (simp add: signed_digits_def isdigit_def)
  note t = numeric_option [OF limit_in_table h name fN fS,
      of vopt_zero "int_arg 100 []" 0 None mem_empty "str_arg ''100''" SIZE_MAX]
  show ?thesis
    using t sl sd printf_d_100 by simp
qed

subsection \<open>Percent-encoding\<close>



lemma hex_cases: "d < 16 \<Longrightarrow> d \<in> {0, 1, 2, 3, 4, 5, 6, 7, 8, 9, 10, 11, 12, 13, 14, 15::nat}"
  by simp arith

lemma hex_char_upper: "d < 16 \<Longrightarrow> hex_char d \<in> set ''0123456789ABCDEF''"
  by (drule hex_cases) (auto simp: hex_char_def)

lemma hex_value_hex_char: "d < 16 \<Longrightarrow> hex_value (hex_char d) = d"
  by (drule hex_cases) (auto simp: hex_char_def hex_value_def isdigit_def)

lemma of_char_less_256: "(of_char c :: nat) < 256"
proof -
  have "(of_char c :: nat) mod 256 = of_char c" by (rule of_char_mod_256)
  then show ?thesis by (metis mod_less_divisor zero_less_numeral)
qed

lemma printf_02X_digits:
  "\<exists>h l. printf_02X c = [h, l] \<and> h \<in> set ''0123456789ABCDEF'' \<and> l \<in> set ''0123456789ABCDEF'' \<and>
         16 * hex_value h + hex_value l = of_char c"
proof -
  have hi: "(of_char c :: nat) div 16 < 16"
    using of_char_less_256 [of c] by (simp add: less_mult_imp_div_less)
  have lo: "(of_char c :: nat) mod 16 < 16" by simp
  show ?thesis
    using hex_char_upper [OF hi] hex_char_upper [OF lo]
      hex_value_hex_char [OF hi] hex_value_hex_char [OF lo]
    by (simp add: printf_02X_def)
qed
















subsection \<open>The URI\<close>

lemma int_of_size_t_small: "n < 2 ^ 31 \<Longrightarrow> int_of_size_t n = int n"
  by (simp add: int_of_size_t_def signed_of_nat signed_take_bit_int_eq_self)

lemma stale_false_record:
  "lcbex_vopt_assign vopt_zero (str_arg ''stale'') 5 (str_arg ''false'') 5 0 None mem_empty =
   (LCB_SUCCESS,
    \<lparr>optname = Heap 1 ''stale'', optval = Static ''false'', noptname = 5, noptval = 5, flags = 8\<rparr>,
    None, \<lparr>live = [1], faults = 0\<rparr>)"
  by (simp add: eval_defs bool_param_handler_def stale_param_handler_def cbyte_def)

lemma startkey_docid_record:
  "lcbex_vopt_assign vopt_zero (str_arg ''startkey_docid'') 14 (str_arg ''a space'') 7
     LCBEX_VOPT_F_PCTENCODE None \<lparr>live = [1], faults = 0\<rparr> =
   (LCB_SUCCESS,
    \<lparr>optname = Heap 2 ''startkey_docid'', optval = Heap 3 ''a%20space'', noptname = 14,
       noptval = 9, flags = 1\<rparr>,
    None, \<lparr>live = [3, 2, 1], faults = 0\<rparr>)"
  by (simp add: eval_defs string_param_handler_def needed_size_loop.simps do_pct_encode_def
      do_pct_encode_loop.simps needs_pct_encoding_def cbyte_def printf_02X_def hex_char_def)

lemma printf_prec_s_small:
  "n < 2 ^ 31 \<Longrightarrow> printf_prec_s (int_of_size_t n) s = take n (cstring s)"
  by (simp add: printf_prec_s_def int_of_size_t_small)

lemma make_uri_path_small:
  "nd < 2 ^ 31 \<Longrightarrow> nv < 2 ^ 31 \<Longrightarrow>
   make_uri_path design nd view nv = uri_path (take nd (cstring design)) (take nv (cstring view))"
  by (simp add: make_uri_path_def uri_path_def printf_prec_s_small)

lemma snprintf_ret_small:
  "length out \<le> INT_MAX \<Longrightarrow> size_t_of_int (snprintf_ret out) = length out"
proof -
  assume a: "length out \<le> INT_MAX"
  then have "int (length out) < 2 ^ 64"
    by (simp add: INT_MAX_def)
  then have "int (length out) mod 2 ^ 64 = int (length out)"
    by simp
  then show ?thesis
    using a by (simp add: snprintf_ret_def size_t_of_int_def)
qed

lemma size_t_add_small: "a + b \<le> SIZE_MAX \<Longrightarrow> size_t_add a b = a + b"
  by (simp add: size_t_add_def SIZE_MAX_def)

text \<open>
  When the lengths of the names are \<^verbatim>\<open>int\<close> values, the path is, and the sizes sum to a
  \<^verbatim>\<open>size_t\<close>, the block holds the path and the query string, and has the size of both
  and the terminator.
\<close>

lemma make_uri_general:
  assumes d: "effective_len ndesign design < 2 ^ 31" and v: "effective_len nview view < 2 ^ 31"
      and p: "length (uri_path (take (effective_len ndesign design) (cstring design))
                (take (effective_len nview view) (cstring view))) \<le> INT_MAX"
      and q: "query_size options +
              length (uri_path (take (effective_len ndesign design) (cstring design))
                (take (effective_len nview view) (cstring view))) + 1 \<le> SIZE_MAX"
  shows "lcbex_vqstr_make_uri design ndesign view nview options m =
    ((Heap (fresh (live m))
        (uri_path (take (effective_len ndesign design) (cstring design))
           (take (effective_len nview view) (cstring view)) @
         fst (lcbex_vqstr_write options)),
      query_size options +
        length (uri_path (take (effective_len ndesign design) (cstring design))
           (take (effective_len nview view) (cstring view))) + 1),
     m\<lparr>live := fresh (live m) # live m\<rparr>)"
proof -
  define path where "path = uri_path (take (effective_len ndesign design) (cstring design))
    (take (effective_len nview view) (cstring view))"
  note p = p [folded path_def] and q = q [folded path_def]
  have nd: "(if ndesign = SIZE_MAX then strlen design else ndesign) = effective_len ndesign design"
    and nv: "(if nview = SIZE_MAX then strlen view else nview) = effective_len nview view"
    by (simp_all add: effective_len_def)
  have e1: "make_uri_path design (effective_len ndesign design) view (effective_len nview view) =
      path"
    unfolding path_def by (rule make_uri_path_small [OF d v])
  have e2: "size_t_of_int (snprintf_ret path) = length path"
    by (rule snprintf_ret_small [OF p])
  have e3: "size_t_add (length path) 1 = length path + 1"
    using q by (intro size_t_add_small) simp
  have e4: "lcbex_vqstr_calc_len options = query_size options"
    using q by (intro calc_len_exact) simp
  have e5: "size_t_add (query_size options) (length path + 1) =
      query_size options + length path + 1"
    using q by (simp add: size_t_add_small)
  have e6: "take (length path) (snprintf_bytes (length path + 1) path) = path"
    by (simp add: snprintf_bytes_def)
  obtain query n where w: "lcbex_vqstr_write options = (query, n)"
    by (cases "lcbex_vqstr_write options")
  have e7: "length path + length query + 1 \<le> query_size options + length path + 1"
    using write_length [of options] w by simp
  have "lcbex_vqstr_make_uri design ndesign view nview options m =
    ((Heap (fresh (live m)) (path @ query), query_size options + length path + 1),
     m\<lparr>live := fresh (live m) # live m\<rparr>)"
    unfolding lcbex_vqstr_make_uri_def Let_def nd nv e1 e2 e3 e4 e5 e6 w malloc_def
    using e7 by simp
  then show ?thesis
    using w by (simp add: path_def)
qed

lemma make_uri_test:
  "lcbex_vqstr_make_uri ''ddoc'' SIZE_MAX ''vdoc'' SIZE_MAX
     [\<lparr>optname = Heap 1 ''stale'', optval = Static ''false'', noptname = 5, noptval = 5,
         flags = 8\<rparr>,
      \<lparr>optname = Heap 2 ''startkey_docid'', optval = Heap 3 ''a%20space'', noptname = 14,
         noptval = 9, flags = 1\<rparr>]
     \<lparr>live = [3, 2, 1], faults = 0\<rparr> =
   ((Heap 4 ''_design/ddoc/_view/vdoc?stale=false&startkey_docid=a%20space'', 63),
    \<lparr>live = [4, 3, 2, 1], faults = 0\<rparr>)"
proof -
  let ?opts = "[\<lparr>optname = Heap 1 ''stale'', optval = Static ''false'', noptname = 5,
         noptval = 5, flags = 8\<rparr>,
      \<lparr>optname = Heap 2 ''startkey_docid'', optval = Heap 3 ''a%20space'', noptname = 14,
         noptval = 9, flags = 1\<rparr>]"
  have d: "effective_len SIZE_MAX ''ddoc'' = 4" "cstring ''ddoc'' = ''ddoc''"
    by (simp_all add: effective_len_auto strlen_def cstring_def NUL_def)
  have v: "effective_len SIZE_MAX ''vdoc'' = 4" "cstring ''vdoc'' = ''vdoc''"
    by (simp_all add: effective_len_auto strlen_def cstring_def NUL_def)
  have qs: "query_size ?opts = 39"
    by (simp add: query_size_def)
  have w: "fst (lcbex_vqstr_write ?opts) = ''?stale=false&startkey_docid=a%20space''"
    by (simp add: lcbex_vqstr_write_def write_option_def memcpy_bytes_def)
  have h: "effective_len SIZE_MAX ''ddoc'' < 2 ^ 31" "effective_len SIZE_MAX ''vdoc'' < 2 ^ 31"
    "length (uri_path (take (effective_len SIZE_MAX ''ddoc'') (cstring ''ddoc''))
       (take (effective_len SIZE_MAX ''vdoc'') (cstring ''vdoc''))) \<le> INT_MAX"
    "query_size ?opts +
       length (uri_path (take (effective_len SIZE_MAX ''ddoc'') (cstring ''ddoc''))
         (take (effective_len SIZE_MAX ''vdoc'') (cstring ''vdoc''))) + 1 \<le> SIZE_MAX"
    unfolding d v qs by (simp_all add: uri_path_def INT_MAX_def SIZE_MAX_def)
  show ?thesis
    unfolding make_uri_general [OF h, of "\<lparr>live = [3, 2, 1], faults = 0\<rparr>"] d v qs w
    by (simp add: uri_path_def fresh_def)
qed

text \<open>
  Claim C6, as amended. With the design \<^verbatim>\<open>ddoc\<close>, the view \<^verbatim>\<open>vdoc\<close> and the records of
  \<^verbatim>\<open>stale=false\<close> and of \<^verbatim>\<open>startkey_docid=a space\<close> assigned with percent-encoding,
  \<^verbatim>\<open>lcbex_vqstr_make_uri\<close> returns a block that holds the string
  \<^verbatim>\<open>_design/ddoc/_view/vdoc?stale=false&startkey_docid=a%20space\<close>. In general, when the
  lengths of the design and view names are below \<open>2 ^ 31\<close> (so that the cast to \<^verbatim>\<open>int\<close>
  leaves them as they are), the path is at most \<^verbatim>\<open>INT_MAX\<close> bytes long (so that its length
  is a result of \<^verbatim>\<open>snprintf\<close>), and the sizes of the path, the query string and the
  terminator sum to at most \<^verbatim>\<open>SIZE_MAX\<close>, the block holds \<^verbatim>\<open>_design/\<close>, the design
  name, \<^verbatim>\<open>/_view/\<close>, the view name and the query string \<^verbatim>\<open>lcbex_vqstr_write\<close> produces,
  and is large enough for them and the terminator.
\<close>

theorem make_uri_contents:
  "(effective_len ndesign design < 2 ^ 31 \<and> effective_len nview view < 2 ^ 31 \<and>
    length (uri_path (take (effective_len ndesign design) (cstring design))
      (take (effective_len nview view) (cstring view))) \<le> INT_MAX \<and>
    query_size options +
      length (uri_path (take (effective_len ndesign design) (cstring design))
        (take (effective_len nview view) (cstring view))) + 1 \<le> SIZE_MAX \<longrightarrow>
      (\<exists>a needed_len m'.
         lcbex_vqstr_make_uri design ndesign view nview options m =
           ((Heap a
               (uri_path (take (effective_len ndesign design) (cstring design))
                  (take (effective_len nview view) (cstring view)) @
                fst (lcbex_vqstr_write options)),
             needed_len), m') \<and>
         length (uri_path (take (effective_len ndesign design) (cstring design))
                  (take (effective_len nview view) (cstring view)) @
                fst (lcbex_vqstr_write options)) < needed_len \<and>
         mem_extends m m')) \<and>
   lcbex_vopt_assign vopt_zero (str_arg ''stale'') 5 (str_arg ''false'') 5 0 None mem_empty =
     (LCB_SUCCESS,
      \<lparr>optname = Heap 1 ''stale'', optval = Static ''false'', noptname = 5, noptval = 5,
         flags = 8\<rparr>,
      None, \<lparr>live = [1], faults = 0\<rparr>) \<and>
   lcbex_vopt_assign vopt_zero (str_arg ''startkey_docid'') 14 (str_arg ''a space'') 7
     LCBEX_VOPT_F_PCTENCODE None \<lparr>live = [1], faults = 0\<rparr> =
     (LCB_SUCCESS,
      \<lparr>optname = Heap 2 ''startkey_docid'', optval = Heap 3 ''a%20space'', noptname = 14,
         noptval = 9, flags = 1\<rparr>,
      None, \<lparr>live = [3, 2, 1], faults = 0\<rparr>) \<and>
   lcbex_vqstr_make_uri ''ddoc'' SIZE_MAX ''vdoc'' SIZE_MAX
     [\<lparr>optname = Heap 1 ''stale'', optval = Static ''false'', noptname = 5, noptval = 5,
         flags = 8\<rparr>,
      \<lparr>optname = Heap 2 ''startkey_docid'', optval = Heap 3 ''a%20space'', noptname = 14,
         noptval = 9, flags = 1\<rparr>]
     \<lparr>live = [3, 2, 1], faults = 0\<rparr> =
     ((Heap 4 ''_design/ddoc/_view/vdoc?stale=false&startkey_docid=a%20space'', 63),
      \<lparr>live = [4, 3, 2, 1], faults = 0\<rparr>)"
proof (intro conjI impI)
  let ?path = "uri_path (take (effective_len ndesign design) (cstring design))
                  (take (effective_len nview view) (cstring view))"
  assume a: "effective_len ndesign design < 2 ^ 31 \<and> effective_len nview view < 2 ^ 31 \<and>
    length ?path \<le> INT_MAX \<and> query_size options + length ?path + 1 \<le> SIZE_MAX"
  note eq = make_uri_general [OF a [THEN conjunct1] a [THEN conjunct2, THEN conjunct1]
      a [THEN conjunct2, THEN conjunct2, THEN conjunct1]
      a [THEN conjunct2, THEN conjunct2, THEN conjunct2], of m]
  have "length (?path @ fst (lcbex_vqstr_write options)) <
      query_size options + length ?path + 1"
    using write_length [of options] by simp
  moreover have "mem_extends m (m\<lparr>live := fresh (live m) # live m\<rparr>)"
    by (rule mem_extends_cons)
  ultimately show "\<exists>a needed_len m'.
         lcbex_vqstr_make_uri design ndesign view nview options m =
           ((Heap a (?path @ fst (lcbex_vqstr_write options)), needed_len), m') \<and>
         length (?path @ fst (lcbex_vqstr_write options)) < needed_len \<and> mem_extends m m'"
    using eq by blast
qed (rule stale_false_record startkey_docid_record make_uri_test)+

theorem make_uri_contents_witness:
  "\<exists>a needed_len m'.
     lcbex_vqstr_make_uri ''a_design'' SIZE_MAX ''a_view'' SIZE_MAX
       [\<lparr>optname = Heap 1 ''limit'', optval = Heap 2 ''100'', noptname = 5, noptval = 3,
           flags = 0\<rparr>]
       \<lparr>live = [2, 1], faults = 0\<rparr> =
       ((Heap a ''_design/a_design/_view/a_view?limit=100'', needed_len), m')"
proof -
  let ?opts = "[\<lparr>optname = Heap 1 ''limit'', optval = Heap 2 ''100'', noptname = 5,
    noptval = 3, flags = 0\<rparr>]"
  have d: "effective_len SIZE_MAX ''a_design'' = 8" "cstring ''a_design'' = ''a_design''"
    by (simp_all add: effective_len_auto strlen_def cstring_def NUL_def)
  have v: "effective_len SIZE_MAX ''a_view'' = 6" "cstring ''a_view'' = ''a_view''"
    by (simp_all add: effective_len_auto strlen_def cstring_def NUL_def)
  have qs: "query_size ?opts = 12"
    by (simp add: query_size_def)
  have p: "uri_path (take 8 ''a_design'') (take 6 ''a_view'') = ''_design/a_design/_view/a_view''"
    by (simp add: uri_path_def)
  have h: "effective_len SIZE_MAX ''a_design'' < 2 ^ 31 \<and>
      effective_len SIZE_MAX ''a_view'' < 2 ^ 31 \<and>
      length (uri_path (take (effective_len SIZE_MAX ''a_design'') (cstring ''a_design''))
        (take (effective_len SIZE_MAX ''a_view'') (cstring ''a_view''))) \<le> INT_MAX \<and>
      query_size ?opts +
        length (uri_path (take (effective_len SIZE_MAX ''a_design'') (cstring ''a_design''))
          (take (effective_len SIZE_MAX ''a_view'') (cstring ''a_view''))) + 1 \<le> SIZE_MAX"
    unfolding d v qs p by (simp add: INT_MAX_def SIZE_MAX_def)
  have w: "fst (lcbex_vqstr_write ?opts) = ''?limit=100''"
    by (simp add: write_single memcpy_bytes_def)
  note t = make_uri_contents [THEN conjunct1, rule_format, OF h,
      of "\<lparr>live = [2, 1], faults = 0\<rparr>"]
  from t obtain a needed_len m' where
    "lcbex_vqstr_make_uri ''a_design'' SIZE_MAX ''a_view'' SIZE_MAX ?opts
       \<lparr>live = [2, 1], faults = 0\<rparr> =
       ((Heap a
          (uri_path (take (effective_len SIZE_MAX ''a_design'') (cstring ''a_design''))
             (take (effective_len SIZE_MAX ''a_view'') (cstring ''a_view'')) @
           fst (lcbex_vqstr_write ?opts)),
         needed_len), m')"
    by blast
  then have "lcbex_vqstr_make_uri ''a_design'' SIZE_MAX ''a_view'' SIZE_MAX ?opts
       \<lparr>live = [2, 1], faults = 0\<rparr> =
       ((Heap a ''_design/a_design/_view/a_view?limit=100'', needed_len), m')"
    unfolding d v w p by simp
  then show ?thesis by blast
qed

lemma strlen_replicate: "c \<noteq> NUL \<Longrightarrow> strlen (replicate n c) = n"
  by (simp add: strlen_def cstring_def)

lemma cstring_replicate: "c \<noteq> NUL \<Longrightarrow> cstring (replicate n c) = replicate n c"
  by (simp add: cstring_def)

lemma int_of_size_t_wraps: "int_of_size_t (2 ^ 32 + 1) = 1"
  by (simp add: int_of_size_t_def)

lemma make_uri_long_name:
  "lcbex_vqstr_make_uri (replicate (2 ^ 32 + 1) (CHR ''a'')) SIZE_MAX ''v'' SIZE_MAX [] mem_empty =
     ((Heap 1 ''_design/a/_view/v'', 20), \<lparr>live = [1], faults = 0\<rparr>)"
proof -
  let ?d = "replicate (2 ^ 32 + 1) (CHR ''a'')"
  have a: "CHR ''a'' \<noteq> NUL" by (simp add: NUL_def)
  have sl: "strlen ?d = 2 ^ 32 + 1"
    by (rule strlen_replicate [OF a])
  have cs: "cstring ?d = ?d"
    by (rule cstring_replicate [OF a])
  have v: "strlen ''v'' = 1" "cstring ''v'' = ''v''"
    by (simp_all add: strlen_def cstring_def NUL_def)
  have pd: "printf_prec_s (int_of_size_t (2 ^ 32 + 1)) ?d = ''a''"
    unfolding int_of_size_t_wraps printf_prec_s_def cs by (simp add: take_Suc_conv_app_nth)
  have pv: "printf_prec_s (int_of_size_t 1) ''v'' = ''v''"
    by (simp add: printf_prec_s_small v)
  have path: "make_uri_path ?d (2 ^ 32 + 1) ''v'' 1 = ''_design/a/_view/v''"
    unfolding make_uri_path_def pd pv by simp
  have w: "lcbex_vqstr_write [] = ([], 0)"
    by (simp add: lcbex_vqstr_write_def size_t_of_int_def)
  have c: "lcbex_vqstr_calc_len [] = 2"
    by (simp add: lcbex_vqstr_calc_len_def size_t_add_def)
  have r: "size_t_of_int (snprintf_ret ''_design/a/_view/v'') = 17"
    by (simp add: snprintf_ret_small INT_MAX_def)
  show ?thesis
    unfolding lcbex_vqstr_make_uri_def Let_def if_P [OF refl] sl v path w c r
    by (simp add: size_t_add_def snprintf_bytes_def malloc_def fresh_def mem_empty_def)
qed

lemma make_uri_long_path:
  "lcbex_vqstr_make_uri (replicate (2 ^ 31 - 1) (CHR ''a'')) SIZE_MAX ''v'' SIZE_MAX [] mem_empty =
     ((Heap 1 [], 2), \<lparr>live = [1], faults = 1\<rparr>)"
proof -
  let ?d = "replicate (2 ^ 31 - 1) (CHR ''a'')"
  have a: "CHR ''a'' \<noteq> NUL" by (simp add: NUL_def)
  have sl: "strlen ?d = 2 ^ 31 - 1"
    by (rule strlen_replicate [OF a])
  have cs: "cstring ?d = ?d"
    by (rule cstring_replicate [OF a])
  have v: "strlen ''v'' = 1" "cstring ''v'' = ''v''"
    by (simp_all add: strlen_def cstring_def NUL_def)
  have "length (make_uri_path ?d (2 ^ 31 - 1) ''v'' 1) = 2 ^ 31 + 15"
    by (simp add: make_uri_path_small uri_path_def cstring_replicate [OF a] v)
  then have r: "size_t_of_int (snprintf_ret (make_uri_path ?d (2 ^ 31 - 1) ''v'' 1)) = 2 ^ 64 - 1"
    by (simp add: snprintf_ret_def INT_MAX_def size_t_of_int_def)
  have z: "size_t_add (2 ^ 64 - 1) 1 = 0"
    by (simp add: size_t_add_def)
  have w: "lcbex_vqstr_write [] = ([], 0)"
    by (simp add: lcbex_vqstr_write_def size_t_of_int_def)
  have c: "lcbex_vqstr_calc_len [] = 2"
    by (simp add: lcbex_vqstr_calc_len_def size_t_add_def)
  show ?thesis
    unfolding lcbex_vqstr_make_uri_def Let_def if_P [OF refl] sl v r z w c
    by (simp add: size_t_add_def snprintf_bytes_def malloc_def fresh_def mem_empty_def)
qed

lemma make_uri_long_query:
  "lcbex_vqstr_make_uri ''d'' SIZE_MAX ''v'' SIZE_MAX
     (replicate 2 \<lparr>optname = Heap 1 (replicate (2 ^ 63 - 4) (CHR ''k'')), optval = Heap 2 ''1'',
        noptname = 2 ^ 63 - 4, noptval = 1, flags = 0\<rparr>)
     \<lparr>live = [2, 1], faults = 0\<rparr> =
     ((Heap 3 [], 18), \<lparr>live = [3, 2, 1], faults = 1\<rparr>)"
proof -
  let ?r = "\<lparr>optname = Heap 1 (replicate (2 ^ 63 - 4) (CHR ''k'')), optval = Heap 2 ''1'',
        noptname = 2 ^ 63 - 4, noptval = 1, flags = 0\<rparr>"
  have q: "query_size (replicate 2 ?r) = 2 ^ 64"
    by (simp add: query_size_def replicate_2)
  have c: "lcbex_vqstr_calc_len (replicate 2 ?r) = 0"
    unfolding calc_len_mod q by simp
  obtain query n where w: "lcbex_vqstr_write (replicate 2 ?r) = (query, n)"
    by (cases "lcbex_vqstr_write (replicate 2 ?r)")
  have l: "length query = 2 ^ 64 - 2"
    using write_length [of "replicate 2 ?r"] q w by simp
  then have ne: "query \<noteq> []"
    by auto
  have d: "strlen ''d'' = 1" "strlen ''v'' = 1"
    by (simp_all add: strlen_def cstring_def NUL_def)
  have path: "make_uri_path ''d'' 1 ''v'' 1 = ''_design/d/_view/v''"
    by (simp add: make_uri_path_small uri_path_def cstring_def NUL_def)
  have r: "size_t_of_int (snprintf_ret ''_design/d/_view/v'') = 17"
    by (simp add: snprintf_ret_small INT_MAX_def)
  show ?thesis
    unfolding lcbex_vqstr_make_uri_def Let_def if_P [OF refl] d path r c w
    using ne by (simp add: size_t_add_def malloc_def fresh_def)
qed

text \<open>
  Claim C6, as stated, fails in its general part, in three ways. For a design name of
  \<open>2 ^ 32 + 1\<close> bytes the cast \<^verbatim>\<open>(int)ndesign\<close> gives the precision 1, and the block holds
  the first byte of the name only, not the name. For a design name of \<open>2 ^ 31 - 1\<close> bytes
  the path is longer than \<^verbatim>\<open>INT_MAX\<close>, the first \<^verbatim>\<open>snprintf\<close> fails, and the query string
  is written outside the block. For an option list whose query string has \<open>2 ^ 64\<close>
  bytes the size of the block wraps around to 18, and the query string is written past
  its end.
\<close>

theorem make_uri_long_inputs:
  "bytes_at (fst (fst (lcbex_vqstr_make_uri (replicate (2 ^ 32 + 1) (CHR ''a'')) SIZE_MAX
      ''v'' SIZE_MAX [] mem_empty))) = ''_design/a/_view/v'' \<and>
   bytes_at (fst (fst (lcbex_vqstr_make_uri (replicate (2 ^ 32 + 1) (CHR ''a'')) SIZE_MAX
      ''v'' SIZE_MAX [] mem_empty))) \<noteq>
   uri_path (replicate (2 ^ 32 + 1) (CHR ''a'')) ''v'' @ fst (lcbex_vqstr_write []) \<and>
   faults mem_empty = 0 \<and>
   faults (snd (lcbex_vqstr_make_uri (replicate (2 ^ 31 - 1) (CHR ''a'')) SIZE_MAX
      ''v'' SIZE_MAX [] mem_empty)) = 1 \<and>
   faults (snd (lcbex_vqstr_make_uri ''d'' SIZE_MAX ''v'' SIZE_MAX
     (replicate 2 \<lparr>optname = Heap 1 (replicate (2 ^ 63 - 4) (CHR ''k'')), optval = Heap 2 ''1'',
        noptname = 2 ^ 63 - 4, noptval = 1, flags = 0\<rparr>)
     \<lparr>live = [2, 1], faults = 0\<rparr>)) = 1"
proof -
  let ?d = "replicate (2 ^ 32 + 1) (CHR ''a'')"
  have b: "bytes_at (fst (fst (lcbex_vqstr_make_uri ?d SIZE_MAX ''v'' SIZE_MAX [] mem_empty))) =
      ''_design/a/_view/v''"
    unfolding make_uri_long_name by simp
  have "length ''_design/a/_view/v'' \<noteq> length (uri_path ?d ''v'' @ fst (lcbex_vqstr_write []))"
    by (simp add: uri_path_def)
  then have n: "''_design/a/_view/v'' \<noteq> uri_path ?d ''v'' @ fst (lcbex_vqstr_write [])"
    by (metis (no_types))
  have z: "faults mem_empty = 0"
    by (simp add: mem_empty_def)
  have p: "faults (snd (lcbex_vqstr_make_uri (replicate (2 ^ 31 - 1) (CHR ''a'')) SIZE_MAX
      ''v'' SIZE_MAX [] mem_empty)) = 1"
    unfolding make_uri_long_path by simp
  have q: "faults (snd (lcbex_vqstr_make_uri ''d'' SIZE_MAX ''v'' SIZE_MAX
     (replicate 2 \<lparr>optname = Heap 1 (replicate (2 ^ 63 - 4) (CHR ''k'')), optval = Heap 2 ''1'',
        noptname = 2 ^ 63 - 4, noptval = 1, flags = 0\<rparr>)
     \<lparr>live = [2, 1], faults = 0\<rparr>)) = 1"
    unfolding make_uri_long_query by simp
  show ?thesis
    using b n z p q by (simp only: simp_thms)
qed

subsection \<open>Bulk creation: all or nothing\<close>

text \<open>
  Cleaning up a record whose flags agree with its pointers removes exactly its blocks
  from the heap; so does cleaning up a list of such records.
\<close>
lemma free_addr_live:
  "a \<in> set (live m) \<Longrightarrow> free_addr a m = m\<lparr>live := removeAll a (live m)\<rparr>"
  by (simp add: free_addr_def)

lemma removeAll_filter: "removeAll a xs = filter (\<lambda>x. x \<noteq> a) xs"
  by (induction xs) auto

lemma cleanup_tidy:
  assumes t: "tidy r" and d: "distinct (rec_addrs r)" and s: "set (rec_addrs r) \<subseteq> set (live m)"
  shows "lcbex_vopt_cleanup r m =
    (vopt_zero, m\<lparr>live := filter (\<lambda>a. a \<notin> set (rec_addrs r)) (live m)\<rparr>)"
proof (cases "optname r")
  case Null
  then show ?thesis
    using t d s
    by (cases "optval r")
      (auto simp: tidy_def rec_addrs_def lcbex_vopt_cleanup_def flag_tests free_addr_live
        removeAll_filter)
next
  case (Static x)
  then show ?thesis
    using t d s
    by (cases "optval r")
      (auto simp: tidy_def rec_addrs_def lcbex_vopt_cleanup_def flag_tests free_addr_live
        removeAll_filter)
next
  case (Caller x)
  then show ?thesis
    using t d s
    by (cases "optval r")
      (auto simp: tidy_def rec_addrs_def lcbex_vopt_cleanup_def flag_tests free_addr_live
        removeAll_filter)
next
  case (Heap a bs)
  then show ?thesis
    using t d s
    by (cases "optval r")
      (auto simp: tidy_def rec_addrs_def lcbex_vopt_cleanup_def flag_tests free_addr_live
        removeAll_filter conj_commute)
qed

lemma cleanup_list_tidy:
  assumes "\<forall>r\<in>set opts. tidy r" and "distinct (concat (map rec_addrs opts))"
      and "set (concat (map rec_addrs opts)) \<subseteq> set (live m)"
  shows "snd (lcbex_vopt_cleanup_list opts c m) =
    m\<lparr>live := filter (\<lambda>a. a \<notin> set (concat (map rec_addrs opts))) (live m)\<rparr>"
  using assms
proof (induction opts arbitrary: m)
  case Nil
  show ?case by simp
next
  case (Cons r rest)
  let ?m1 = "m\<lparr>live := filter (\<lambda>a. a \<notin> set (rec_addrs r)) (live m)\<rparr>"
  have c: "lcbex_vopt_cleanup r m = (vopt_zero, ?m1)"
    using Cons.prems by (intro cleanup_tidy) auto
  have sub: "set (concat (map rec_addrs rest)) \<subseteq> set (live ?m1)"
    using Cons.prems by auto
  have "snd (lcbex_vopt_cleanup_list rest c ?m1) =
      ?m1\<lparr>live := filter (\<lambda>a. a \<notin> set (concat (map rec_addrs rest))) (live ?m1)\<rparr>"
    using Cons.prems sub by (intro Cons.IH) auto
  then show ?case
    using c by (simp add: split_beta conj_commute)
qed


text \<open>
  An assignment with no flags, as \<^verbatim>\<open>lcbex_vopt_createv\<close> makes it, leaves a record
  whose blocks are exactly what the assignment added to the heap, whether it succeeds or
  fails, and fails only with \<^verbatim>\<open>LCB_EINVAL\<close>.
\<close>
lemma set_user_string_plain:
  "set_user_string optobj value nvalue 0 m = (r', m') \<Longrightarrow> value_stored optobj r' m m'"
  by (auto simp: set_user_string_def my_strndup_def malloc_def Let_def value_stored_def
      flag_sets)

lemma bool_param_handler_plain:
  "bool_param_handler optobj value nvalue 0 e m = (rc, r', e', m') \<Longrightarrow> value_stored optobj r' m m'"
  by (auto simp: bool_param_handler_def Let_def value_stored_def flag_sets
      split: option.splits if_splits)

lemma num_param_handler_plain:
  "num_param_handler optobj value nvalue 0 e m = (rc, r', e', m') \<Longrightarrow> value_stored optobj r' m m'"
  using set_user_string_plain
  by (auto simp: num_param_handler_def Let_def split: if_splits prod.splits)
    (auto simp: value_stored_def)

lemma string_param_handler_plain:
  "string_param_handler optobj value nvalue 0 e m = (rc, r', e', m') \<Longrightarrow>
   value_stored optobj r' m m'"
  using set_user_string_plain
  by (auto simp: string_param_handler_def Let_def split: if_splits prod.splits)

lemma onerror_param_handler_plain:
  "onerror_param_handler optobj value nvalue 0 e m = (rc, r', e', m') \<Longrightarrow>
   value_stored optobj r' m m'"
  by (auto simp: onerror_param_handler_def Let_def value_stored_def flag_sets split: if_splits)

lemma stale_param_handler_plain:
  "stale_param_handler optobj value nvalue 0 e m = (rc, r', e', m') \<Longrightarrow>
   value_stored optobj r' m m'"
  apply (simp add: stale_param_handler_def Let_def split: prod.splits)
  apply (auto simp: bool_param_handler_def Let_def value_stored_def flag_sets
      split: option.splits if_splits)
  done

lemma call_handler_plain:
  "call_handler h optobj value nvalue 0 e m = (rc, r', e', m') \<Longrightarrow> value_stored optobj r' m m'"
  by (cases h)
    (auto dest: bool_param_handler_plain num_param_handler_plain string_param_handler_plain
      stale_param_handler_plain onerror_param_handler_plain)

lemma allocated_empty: "allocated (vopt_zero\<lparr>flags := f\<rparr>) m m"
  by (simp add: allocated_def tidy_def rec_addrs_def vopt_zero_def)

lemma allocated_zero: "allocated vopt_zero m m"
  by (simp add: allocated_def tidy_def rec_addrs_def vopt_zero_def)

lemma named_record_plain:
  "named_record vparam option noption 0 m =
     (vopt_zero\<lparr>optname := Heap (fresh (live m)) (strncpy_bytes (str_view option) noption),
        noptname := noption, flags := 0\<rparr>,
      m\<lparr>live := fresh (live m) # live m\<rparr>)"
  by (simp add: named_record_def)

lemma fresh_Cons_neq: "fresh (a # as) \<noteq> a"
  using fresh_notin [of "a # as"] by auto

lemma fresh_Cons_notin: "fresh (a # as) \<notin> set as"
  using fresh_notin [of "a # as"] by auto

lemma assign_plain_allocated:
  assumes a: "lcbex_vopt_assign r0 option noption value nvalue 0 e m = (rc, r', e', m')"
  shows "allocated r' m m'"
proof -
  let ?nv = "effective_len nvalue (str_view value)"
  let ?no = "effective_len noption (str_view option)"
  have z: "(0::int) AND LCBEX_VOPT_F_OPTVAL_NUMERIC = 0" "(0::int) AND LCBEX_VOPT_F_OPTNAME_NUMERIC = 0"
    "(0::int) AND LCBEX_VOPT_F_PASSTHROUGH = 0"
    by simp_all
  show ?thesis
  proof (cases "?nv = 0")
    case True
    show ?thesis
      using a assign_missing_value [OF z(1) True, of r0 option noption e m]
      by (simp add: allocated_zero)
  next
    case nv: False
    then have val: "0 AND LCBEX_VOPT_F_OPTVAL_NUMERIC \<noteq> 0 \<or> ?nv \<noteq> 0" by simp
    show ?thesis
    proof (cases "?no = 0")
      case True
      show ?thesis
        using a assign_missing_name [OF val z(2) True, of r0 e m] by (simp add: allocated_zero)
    next
      case False
      then have n: "0 AND LCBEX_VOPT_F_OPTNAME_NUMERIC \<noteq> 0 \<or> ?no \<noteq> 0" by simp
      note eq = assign_lookup [OF val n z(3), of r0 e m]
      show ?thesis
      proof (cases "find_view_param option ?no 0")
        case None
        then show ?thesis using a eq by (auto simp: allocated_empty)
      next
        case (Some vparam)
        let ?a1 = "fresh (live m)"
        let ?m1 = "m\<lparr>live := ?a1 # live m\<rparr>"
        let ?named = "vopt_zero\<lparr>optname := Heap ?a1 (strncpy_bytes (str_view option) ?no),
            noptname := ?no, flags := 0\<rparr>"
        have call: "call_handler (handler vparam) ?named value ?nv 0 e ?m1 = (rc, r', e', m')"
          using a eq Some by (simp add: named_record_plain)
        note vs = call_handler_plain [OF call]
        have a1: "?a1 \<notin> set (live m)" by (rule fresh_notin)
        show ?thesis
          using vs a1 fresh_Cons_neq [of ?a1 "live m"] fresh_Cons_notin [of ?a1 "live m"]
          by (auto simp: value_stored_def allocated_def tidy_def rec_addrs_def vopt_zero_def)
      qed
    qed
  qed
qed


lemma assign_plain_status:
  assumes a: "lcbex_vopt_assign r0 option noption value nvalue 0 e m = (rc, r', e', m')"
  shows "rc = LCB_SUCCESS \<or> rc = LCB_EINVAL"
proof -
  let ?nv = "effective_len nvalue (str_view value)"
  let ?no = "effective_len noption (str_view option)"
  have z: "(0::int) AND LCBEX_VOPT_F_OPTVAL_NUMERIC = 0" "(0::int) AND LCBEX_VOPT_F_OPTNAME_NUMERIC = 0"
    "(0::int) AND LCBEX_VOPT_F_PASSTHROUGH = 0"
    by simp_all
  show ?thesis
  proof (cases "?nv = 0")
    case True
    show ?thesis
      using a assign_missing_value [OF z(1) True, of r0 option noption e m] by simp
  next
    case nv: False
    then have val: "0 AND LCBEX_VOPT_F_OPTVAL_NUMERIC \<noteq> 0 \<or> ?nv \<noteq> 0" by simp
    show ?thesis
    proof (cases "?no = 0")
      case True
      show ?thesis
        using a assign_missing_name [OF val z(2) True, of r0 e m] by simp
    next
      case False
      then have n: "0 AND LCBEX_VOPT_F_OPTNAME_NUMERIC \<noteq> 0 \<or> ?no \<noteq> 0" by simp
      note eq = assign_lookup [OF val n z(3), of r0 e m]
      show ?thesis
      proof (cases "find_view_param option ?no 0")
        case None
        then show ?thesis using a eq by auto
      next
        case (Some vparam)
        then show ?thesis
          using a eq call_handler_fails by (fastforce split: prod.splits)
      qed
    qed
  qed
qed

text \<open>
  The loop keeps the invariant: the array is reallocated in place of the old one, and
  each assignment adds the blocks of its record.
\<close>

lemma batch_inv_malloc: "malloc m0 = (arr, m) \<Longrightarrow> batch_inv m0 arr [] m"
  using fresh_notin [of "live m0"]
  by (auto simp: malloc_def Let_def batch_inv_def intro!: exI [of _ "[fresh (live m0)]"])

lemma batch_inv_realloc:
  assumes inv: "batch_inv m0 arr opts m" and r: "realloc arr m = (arr', m')"
  shows "batch_inv m0 arr' opts m'"
proof -
  let ?S = "set (concat (map rec_addrs opts))"
  from inv obtain xs where xs: "live m = xs @ live m0" "set xs = insert arr ?S"
    "set xs \<inter> set (live m0) = {}"
    and f: "faults m = faults m0" and d: "arr \<notin> ?S" "distinct (concat (map rec_addrs opts))"
    and t: "\<forall>r\<in>set opts. tidy r"
    by (auto simp: batch_inv_def)
  have mem: "arr \<in> set (live m)" using xs by auto
  have arr0: "arr \<notin> set (live m0)" using xs by auto
  let ?ys = "removeAll arr xs"
  let ?m1 = "m\<lparr>live := ?ys @ live m0\<rparr>"
  have m1: "free_addr arr m = ?m1"
    using mem arr0 xs by (simp add: free_addr_live)
  have arr': "arr' = fresh (live ?m1)" and m': "m' = ?m1\<lparr>live := arr' # live ?m1\<rparr>"
    using r m1 by (auto simp: realloc_def malloc_def Let_def)
  have notin: "arr' \<notin> set (?ys @ live m0)"
    using fresh_notin [of "live ?m1"] arr' by simp
  have ys: "set ?ys = ?S" using xs d by auto
  have "live m' = (arr' # ?ys) @ live m0" using m' by simp
  moreover have "set (arr' # ?ys) = set (arr' # concat (map rec_addrs opts))" using ys by simp
  moreover have "set (arr' # ?ys) \<inter> set (live m0) = {}" using notin xs by auto
  moreover have "faults m' = faults m0" using m' f by simp
  moreover have "distinct (arr' # concat (map rec_addrs opts))" using notin ys d by auto
  ultimately show ?thesis using t unfolding batch_inv_def by blast
qed

lemma batch_inv_grow:
  assumes "batch_inv m0 arr opts m" and "createv_grow n n_alloc arr m = (n_alloc', arr', m')"
  shows "batch_inv m0 arr' opts m'"
  using assms batch_inv_realloc [OF assms(1)]
  by (auto simp: createv_grow_def Let_def split: if_splits prod.splits)

lemma batch_inv_assign:
  assumes inv: "batch_inv m0 arr opts m" and al: "allocated r' m m'"
  shows "batch_inv m0 arr (opts @ [r']) m'"
proof -
  let ?S = "set (concat (map rec_addrs opts))"
  from inv obtain xs where xs: "live m = xs @ live m0" "set xs = insert arr ?S"
    "set xs \<inter> set (live m0) = {}"
    and f: "faults m = faults m0" and d: "arr \<notin> ?S" "distinct (concat (map rec_addrs opts))"
    and t: "\<forall>r\<in>set opts. tidy r"
    by (auto simp: batch_inv_def)
  from al have t': "tidy r'" and l: "live m' = rec_addrs r' @ live m"
    and f': "faults m' = faults m" and d': "distinct (rec_addrs r')"
    and dis: "set (rec_addrs r') \<inter> set (live m) = {}"
    by (auto simp: allocated_def)
  have "live m' = (rec_addrs r' @ xs) @ live m0" using l xs by simp
  moreover have "set (rec_addrs r' @ xs) = set (arr # concat (map rec_addrs (opts @ [r'])))"
    using xs by auto
  moreover have "set (rec_addrs r' @ xs) \<inter> set (live m0) = {}"
    using xs dis by auto
  moreover have "faults m' = faults m0" using f f' by simp
  moreover have "distinct (arr # concat (map rec_addrs (opts @ [r'])))"
    using d d' dis xs by auto
  moreover have "\<forall>r\<in>set (opts @ [r']). tidy r" using t t' by simp
  ultimately show ?thesis unfolding batch_inv_def by blast
qed

lemma batch_inv_loop:
  "batch_inv m0 arr opts m \<Longrightarrow>
   createv_loop args n_alloc arr opts errstr m = (err, arr', opts', errstr', m') \<Longrightarrow>
   batch_inv m0 arr' opts' m'"
proof (induction args n_alloc arr opts errstr m rule: createv_loop.induct)
  case (1 n_alloc arr opts errstr m)
  then show ?case by simp
next
  case (2 strp n_alloc arr opts errstr m)
  obtain n1 a1 m1 where g: "createv_grow (length opts) n_alloc arr m = (n1, a1, m1)"
    by (cases "createv_grow (length opts) n_alloc arr m")
  have "batch_inv m0 a1 opts m1"
    by (rule batch_inv_grow [OF "2.prems"(1) g])
  then show ?case using "2.prems"(2) g by simp
next
  case (3 strp v rest n_alloc arr opts errstr m)
  obtain n1 a1 m1 where g: "createv_grow (length opts) n_alloc arr m = (n1, a1, m1)"
    by (cases "createv_grow (length opts) n_alloc arr m")
  have inv1: "batch_inv m0 a1 opts m1"
    by (rule batch_inv_grow [OF "3.prems"(1) g])
  obtain rc r e2 m2 where
    as: "lcbex_vopt_assign vopt_zero (str_arg strp) SIZE_MAX (str_arg v) SIZE_MAX 0 errstr m1 =
      (rc, r, e2, m2)"
    by (cases "lcbex_vopt_assign vopt_zero (str_arg strp) SIZE_MAX (str_arg v) SIZE_MAX 0 errstr m1")
  have inv2: "batch_inv m0 a1 (opts @ [r]) m2"
    by (rule batch_inv_assign [OF inv1 assign_plain_allocated [OF as]])
  show ?case
  proof (cases "rc = LCB_SUCCESS")
    case False
    then show ?thesis using "3.prems"(2) g as inv2 by simp
  next
    case True
    have "createv_loop rest n1 a1 (opts @ [r]) e2 m2 = (err, arr', opts', errstr', m')"
      using "3.prems"(2) g as True by simp
    then show ?thesis
      using "3.IH" [OF g [symmetric] refl as [symmetric] refl refl _ inv2] True by simp
  qed
qed

lemma createv_loop_status:
  "createv_loop args n_alloc arr opts errstr m = (err, arr', opts', errstr', m') \<Longrightarrow>
   err = LCB_SUCCESS \<or> err = LCB_EINVAL"
proof (induction args n_alloc arr opts errstr m rule: createv_loop.induct)
  case (1 n_alloc arr opts errstr m)
  then show ?case by simp
next
  case (2 strp n_alloc arr opts errstr m)
  then show ?case by (simp split: prod.splits)
next
  case (3 strp v rest n_alloc arr opts errstr m)
  obtain n1 a1 m1 where g: "createv_grow (length opts) n_alloc arr m = (n1, a1, m1)"
    by (cases "createv_grow (length opts) n_alloc arr m")
  obtain rc r e2 m2 where
    as: "lcbex_vopt_assign vopt_zero (str_arg strp) SIZE_MAX (str_arg v) SIZE_MAX 0 errstr m1 =
      (rc, r, e2, m2)"
    by (cases "lcbex_vopt_assign vopt_zero (str_arg strp) SIZE_MAX (str_arg v) SIZE_MAX 0 errstr m1")
  show ?case
  proof (cases "rc = LCB_SUCCESS")
    case False
    then show ?thesis using "3.prems" g as assign_plain_status [OF as] by simp
  next
    case True
    have "createv_loop rest n1 a1 (opts @ [r]) e2 m2 = (err, arr', opts', errstr', m')"
      using "3.prems" g as True by simp
    then show ?thesis
      using "3.IH" [OF g [symmetric] refl as [symmetric] refl refl] True by simp
  qed
qed

lemma createv_loop_odd:
  "odd (length args) \<Longrightarrow>
   createv_loop args n_alloc arr opts errstr m = (err, arr', opts', errstr', m') \<Longrightarrow>
   err \<noteq> LCB_SUCCESS"
proof (induction args n_alloc arr opts errstr m rule: createv_loop.induct)
  case (1 n_alloc arr opts errstr m)
  then show ?case by simp
next
  case (2 strp n_alloc arr opts errstr m)
  then show ?case by (auto split: prod.splits)
next
  case (3 strp v rest n_alloc arr opts errstr m)
  obtain n1 a1 m1 where g: "createv_grow (length opts) n_alloc arr m = (n1, a1, m1)"
    by (cases "createv_grow (length opts) n_alloc arr m")
  obtain rc r e2 m2 where
    as: "lcbex_vopt_assign vopt_zero (str_arg strp) SIZE_MAX (str_arg v) SIZE_MAX 0 errstr m1 =
      (rc, r, e2, m2)"
    by (cases "lcbex_vopt_assign vopt_zero (str_arg strp) SIZE_MAX (str_arg v) SIZE_MAX 0 errstr m1")
  show ?case
  proof (cases "rc = LCB_SUCCESS")
    case False
    then show ?thesis using "3.prems" g as by auto
  next
    case True
    have "createv_loop rest n1 a1 (opts @ [r]) e2 m2 = (err, arr', opts', errstr', m')"
      using "3.prems" g as True by simp
    then show ?thesis
      using "3.IH" [OF g [symmetric] refl as [symmetric] refl refl] True "3.prems"(1) by simp
  qed
qed

text \<open>
  Under the invariant, cleaning up the records and freeing the array gives back the heap
  the function was entered with.
\<close>

lemma batch_inv_released:
  assumes inv: "batch_inv m0 arr opts m"
  shows "free_addr arr (snd (lcbex_vopt_cleanup_list opts c m)) = m0"
proof -
  let ?as = "concat (map rec_addrs opts)"
  from inv obtain xs where xs: "live m = xs @ live m0" "set xs = insert arr (set ?as)"
    "set xs \<inter> set (live m0) = {}"
    and f: "faults m = faults m0" and d: "arr \<notin> set ?as" "distinct ?as"
    and t: "\<forall>r\<in>set opts. tidy r"
    by (auto simp: batch_inv_def)
  have sub: "set ?as \<subseteq> set (live m)" using xs by auto
  let ?ys = "filter (\<lambda>a. a \<notin> set ?as) xs"
  have keep: "filter (\<lambda>a. a \<notin> set ?as) (live m0) = live m0"
    using xs by (auto simp: filter_id_conv)
  have c: "snd (lcbex_vopt_cleanup_list opts c m) = m\<lparr>live := ?ys @ live m0\<rparr>"
    using cleanup_list_tidy [OF t d(2) sub, of c] xs(1) keep by simp
  have ys: "set ?ys = {arr}" using xs d by auto
  have "\<forall>x\<in>set ?ys. x = arr" using ys by blast
  then have rm: "removeAll arr ?ys = []"
    unfolding removeAll_filter filter_empty_conv by blast
  have arr0: "arr \<notin> set (live m0)" using xs by auto
  have "free_addr arr (m\<lparr>live := ?ys @ live m0\<rparr>) = m\<lparr>live := live m0\<rparr>"
    using ys arr0 rm by (simp add: free_addr_live)
  then show ?thesis using c f by simp
qed

text \<open>
  All or nothing: when \<^verbatim>\<open>lcbex_vopt_createv\<close> fails, the status is \<^verbatim>\<open>LCB_EINVAL\<close>,
  \<^verbatim>\<open>*optarray\<close> is null, and the heap is the heap before the call, so the array and every
  record assigned in the batch have been released. When it succeeds it returns a non-empty
  list. A list of odd length always fails.
\<close>

lemma createv_failure_releases_all:
  assumes c: "lcbex_vopt_createv args m = (err, out, n, e, m')" and f: "err \<noteq> LCB_SUCCESS"
  shows "err = LCB_EINVAL \<and> out = None \<and> m' = m"
proof -
  obtain a0 m1 where ma: "malloc m = (a0, m1)" by (cases "malloc m")
  obtain err1 arr opts e1 m2 where
    l: "createv_loop args 8 a0 [] (Some []) m1 = (err1, arr, opts, e1, m2)"
    by (cases "createv_loop args 8 a0 [] (Some []) m1")
  have inv: "batch_inv m arr opts m2"
    by (rule batch_inv_loop [OF batch_inv_malloc [OF ma] l])
  have st: "err1 = LCB_SUCCESS \<or> err1 = LCB_EINVAL" by (rule createv_loop_status [OF l])
  have rel: "free_addr arr (snd (lcbex_vopt_cleanup_list opts True m2)) = m"
    by (rule batch_inv_released [OF inv])
  show ?thesis
    using c f ma l st rel
    by (auto simp: lcbex_vopt_createv_def Let_def split: if_splits prod.splits)
qed

lemma createv_success_returns_list:
  "lcbex_vopt_createv args m = (LCB_SUCCESS, out, n, e, m') \<Longrightarrow>
   \<exists>arr opts. out = Some (arr, opts) \<and> n = length opts \<and> 0 < n"
  by (auto simp: lcbex_vopt_createv_def Let_def split: if_splits prod.splits)

lemma createv_odd_fails:
  assumes "odd (length args)"
  shows "fst (lcbex_vopt_createv args m) = LCB_EINVAL"
proof -
  obtain err out n e m' where c: "lcbex_vopt_createv args m = (err, out, n, e, m')"
    by (cases "lcbex_vopt_createv args m")
  obtain a0 m1 where ma: "malloc m = (a0, m1)" by (cases "malloc m")
  obtain err1 arr opts e1 m2 where
    l: "createv_loop args 8 a0 [] (Some []) m1 = (err1, arr, opts, e1, m2)"
    by (cases "createv_loop args 8 a0 [] (Some []) m1")
  have "err1 \<noteq> LCB_SUCCESS" by (rule createv_loop_odd [OF assms l])
  then have "err \<noteq> LCB_SUCCESS"
    using c ma l by (auto simp: lcbex_vopt_createv_def Let_def split: if_splits prod.splits)
  then show ?thesis using createv_failure_releases_all [OF c] c by simp
qed

text \<open>
  The three failing calls of the unit tests: no argument, a pair followed by a single
  name, and a pair followed by an unrecognized pair.
\<close>

lemma createv_examples:
  "lcbex_vopt_createv [] mem_empty = (LCB_EINVAL, None, 0, Some ''Got no arguments'', mem_empty)"
  "lcbex_vopt_createv [''stale'', ''false'', ''on_error''] mem_empty =
     (LCB_EINVAL, None, 1, Some ''Got odd number of arguments'', mem_empty)"
  "lcbex_vopt_createv [''stale'', ''false'', ''bob'', ''loblaw''] mem_empty =
     (LCB_EINVAL, None, 2, Some ''Unrecognized option'', mem_empty)"
  by (simp_all add: lcbex_vopt_createv_def createv_grow_def eval_defs free_addr_def
      bool_param_handler_def stale_param_handler_def cbyte_def lcbex_vopt_cleanup_def)

text \<open>
  Claim C9. \<^verbatim>\<open>lcbex_vopt_createv\<close> is to report an argument list of odd length as
  \<^verbatim>\<open>"Got odd number of arguments"\<close> and an empty one as \<^verbatim>\<open>"Got no arguments"\<close>. For a
  list of one argument, which has odd length and is not empty, the code reports
  \<^verbatim>\<open>"Got no arguments"\<close>: the loop sets the message for the odd length and leaves with
  \<^verbatim>\<open>*noptions\<close> still zero, and the test \<^verbatim>\<open>if (*noptions == 0)\<close> after the loop replaces
  the message. The status, the null array and the restored heap are as the claim says.
\<close>

theorem createv_single_argument:
  "lcbex_vopt_createv [strp] m = (LCB_EINVAL, None, 0, Some ''Got no arguments'', m)"
  by (simp add: lcbex_vopt_createv_def createv_grow_def malloc_def free_addr_def Let_def
      fresh_notin)

end
